theory Spec2Isabelle
  imports Main "HOL-Library.AList"
begin

section \<open>Outcomes of a method call\<close>

text \<open>
  A Python method mutates its object and either returns or raises. A raised exception
  does not undo the mutations made before it, so both outcomes carry the state.
\<close>

datatype error =
    IndexError | AttributeError | ValueError | KeyError
  | FileNotFoundError | FileExistsError | OSError
  | StackUnderflow | MalformedStack | NoOpenContext | NotModelled

datatype 's result = Ok 's | Raised error 's

definition and_then :: "'s result \<Rightarrow> ('s \<Rightarrow> 's result) \<Rightarrow> 's result" where
  "and_then r f = (case r of Ok s \<Rightarrow> f s | Raised e s \<Rightarrow> Raised e s)"

section \<open>The XML context builder\<close>

text \<open>
  The module \<open>xmlrunner/builder.py\<close> is imported by \<open>result.py\<close> but is not among the
  sources. Every definition of this section is modelled from the specification
  (sections 3 and 4.1).
\<close>

text \<open>
  Modelled from the spec: the children of a context are leaf records (tag, optional
  CDATA text, attribute map in insertion order) and closed contexts (tag, name, counters,
  ordered children). \<open>builder.py\<close> is missing.
\<close>

datatype node =
    Leaf string "string option" "(string \<times> string) list"
  | Element string string "string \<Rightarrow> nat" "node list"

text \<open>
  Modelled from the spec: a Context has a tag, a name, counters (a mapping from counter
  name to a non-negative integer, initialised to 0) and ordered children.
\<close>

record xml_context =
  tag :: string
  name :: string
  counters :: "string \<Rightarrow> nat"
  children :: "node list"

text \<open>
  Modelled from the spec: the operations of the public contract that change the builder,
  as calls with their arguments. \<open>builder.py\<close> is missing.
\<close>

datatype bcall =
    BeginContext string string
  | EndContext
  | IncrementCounter string
  | Append string "string option" "(string \<times> string) list"
  | AppendCdataSection string string
  | Finish

text \<open>
  Modelled from the spec: the Context Stack is an ordered sequence of open contexts,
  innermost last; a closed root becomes the finished document. The field \<open>journal\<close>
  is a ghost field: it lists the calls received so far, oldest first, and no operation
  reads it.
\<close>

record xml_context_builder =
  stack :: "xml_context list"
  document :: "node option"
  journal :: "bcall list"

text \<open>
  Modelled from the spec: a new builder (the constructor is missing) has no open context
  and no document; the Context Stack is created at run start.
\<close>

definition XMLContextBuilder :: xml_context_builder where
  "XMLContextBuilder = \<lparr>stack = [], document = None, journal = []\<rparr>"

text \<open>
  Modelled from the spec: every operation of the contract is a call that the builder
  receives; this records it in the ghost journal.
\<close>

definition received :: "bcall \<Rightarrow> xml_context_builder \<Rightarrow> xml_context_builder" where
  "received c b = b\<lparr>journal := journal b @ [c]\<rparr>"

text \<open>
  Modelled from the spec: \<open>begin_context(tag, name)\<close> pushes a new open Context with the
  given tag and name and zero-valued counters onto the stack.
\<close>

definition begin_context :: "string \<Rightarrow> string \<Rightarrow> xml_context_builder \<Rightarrow> xml_context_builder" where
  "begin_context t n b =
     (received (BeginContext t n) b)
        \<lparr>stack := stack b @ [\<lparr>tag = t, name = n, counters = (\<lambda>_. 0), children = []\<rparr>]\<rparr>"

text \<open>
  Modelled from the spec: \<open>context_tag()\<close> returns the tag of the top-of-stack context,
  or an empty value if the stack is empty.
\<close>

definition context_tag :: "xml_context_builder \<Rightarrow> string" where
  "context_tag b = (if stack b = [] then [] else tag (last (stack b)))"

text \<open>
  Modelled from the spec: incrementing a counter of one context raises it by 1 and leaves
  every other counter as it is.
\<close>

definition bump :: "string \<Rightarrow> xml_context \<Rightarrow> xml_context" where
  "bump n c = c\<lparr>counters := (counters c)(n := counters c n + 1)\<rparr>"

text \<open>
  Modelled from the spec: \<open>increment_counter(name)\<close> increments \<open>name\<close> by 1 on every
  context currently on the stack (rollup).
\<close>

definition increment_counter :: "string \<Rightarrow> xml_context_builder \<Rightarrow> xml_context_builder" where
  "increment_counter n b =
     (received (IncrementCounter n) b)\<lparr>stack := map (bump n) (stack b)\<rparr>"

text \<open>
  Modelled from the spec: children are an ordered sequence; a new child comes last.
\<close>

definition add_child :: "node \<Rightarrow> xml_context \<Rightarrow> xml_context" where
  "add_child nd c = c\<lparr>children := children c @ [nd]\<rparr>"

text \<open>
  Modelled from the spec: a node is added as the last child of the current top context.
  The spec names no receiver when no context is open; by its section 7 the builder never
  swallows a structural misuse, so the model raises.
\<close>

definition append_child :: "node \<Rightarrow> xml_context_builder \<Rightarrow> xml_context_builder result" where
  "append_child nd b =
     (if stack b = [] then Raised NoOpenContext b
      else Ok (b\<lparr>stack := butlast (stack b) @ [add_child nd (last (stack b))]\<rparr>))"

text \<open>
  Modelled from the spec: a leaf gets a CDATA body if \<open>cdata\<close> is given and non-empty.
\<close>

definition cdata_body :: "string option \<Rightarrow> string option" where
  "cdata_body cdata = (case cdata of None \<Rightarrow> None | Some t \<Rightarrow> if t = [] then None else Some t)"

text \<open>
  Modelled from the spec: \<open>append(tag, cdata, **attributes)\<close> adds a leaf with the given
  tag, the attributes in insertion order and, if \<open>cdata\<close> is non-empty, a CDATA body.
\<close>

definition append_leaf ::
  "string \<Rightarrow> string option \<Rightarrow> (string \<times> string) list \<Rightarrow> xml_context_builder
     \<Rightarrow> xml_context_builder result" where
  "append_leaf t cdata attrs b =
     append_child (Leaf t (cdata_body cdata) attrs) (received (Append t cdata attrs) b)"

text \<open>
  Modelled from the spec: \<open>append_cdata_section(tag, text)\<close> appends a leaf with only a
  CDATA body and no attributes.
\<close>

definition append_cdata_section :: "string \<Rightarrow> string \<Rightarrow> xml_context_builder \<Rightarrow> xml_context_builder result" where
  "append_cdata_section t txt b =
     append_child (Leaf t (Some txt) []) (received (AppendCdataSection t txt) b)"

text \<open>
  Modelled from the spec: a closed context is an immutable child record of its tag, name,
  counters and ordered children.
\<close>

definition closed :: "xml_context \<Rightarrow> node" where
  "closed c = Element (tag c) (name c) (counters c) (children c)"

text \<open>
  Modelled from the spec: closing pops the top context and appends its record as a child
  of the new top of stack; a closed root becomes the finished document.
\<close>

definition close_top :: "xml_context_builder \<Rightarrow> xml_context_builder" where
  "close_top b =
     (let c = last (stack b); rest = butlast (stack b)
      in if rest = [] then b\<lparr>stack := [], document := Some (closed c)\<rparr>
         else b\<lparr>stack := butlast rest @ [add_child (closed c) (last rest)]\<rparr>)"

text \<open>
  Modelled from the spec: \<open>end_context()\<close> closes the top context and fails with an
  underflow error if the stack is already empty.
\<close>

definition end_context :: "xml_context_builder \<Rightarrow> xml_context_builder result" where
  "end_context b =
     (if stack b = [] then Raised StackUnderflow (received EndContext b)
      else Ok (close_top (received EndContext b)))"

text \<open>
  Modelled from the spec: \<open>finish()\<close> requires the stack to hold exactly the root context,
  still open or already closed; it closes it if still open and returns the serialised
  tree. Calling it on any other stack is a usage error. The spec fixes the serialised
  text only up to its structure, so the rendering of a tree is the parameter \<open>render\<close>.
\<close>

definition finish ::
  "(node \<Rightarrow> string) \<Rightarrow> xml_context_builder \<Rightarrow> (error + string) \<times> xml_context_builder" where
  "finish render b =
     (let b1 = received Finish b
      in case stack b1 of
           [] \<Rightarrow> (case document b1 of
                    None \<Rightarrow> (Inl MalformedStack, b1)
                  | Some d \<Rightarrow> (Inr (render d), b1))
         | [root] \<Rightarrow> (Inr (render (closed root)), close_top b1)
         | _ \<Rightarrow> (Inl MalformedStack, b1))"

section \<open>Collaborators of the listener\<close>

text \<open>
  A test, as far as the listener looks at it: the module and name of its class,
  its method name, and what \<open>test.shortDescription()\<close> returns.
\<close>

record test_case =
  test_module :: string
  test_class :: string
  testMethodName :: string
  shortDescription :: "string option"

text \<open>\<open>unittest.util.strclass\<close>: \<open>"%s.%s" % (cls.__module__, cls.__name__)\<close>.\<close>

definition strclass :: "test_case \<Rightarrow> string" where
  "strclass t = test_module t @ ''.'' @ test_class t"

text \<open>
  An \<open>err\<close> triple \<open>(exctype, value, traceback)\<close>: the name of the exception class,
  \<open>str(value)\<close>, and the frames of the traceback.
\<close>

record exc_info =
  exctype_name :: string
  value_str :: string
  tb_frames :: "string list"

text \<open>
  \<open>str.splitlines()\<close>: line boundaries are LF, CR, CR LF, VT, FF, FS, GS, RS and NEL;
  the boundaries are dropped and a final boundary opens no further line.
\<close>

definition is_linebreak :: "char \<Rightarrow> bool" where
  "is_linebreak c \<longleftrightarrow>
     c \<in> {CHR 0x0A, CHR 0x0D, CHR 0x0B, CHR 0x0C, CHR 0x1C, CHR 0x1D, CHR 0x1E, CHR 0x85}"

fun splitlines_from :: "string \<Rightarrow> string \<Rightarrow> string list" where
  "splitlines_from acc [] = (if acc = [] then [] else [acc])"
| "splitlines_from acc [c] =
     (if is_linebreak c then [acc] else [acc @ [c]])"
| "splitlines_from acc (c # d # cs) =
     (if c = CHR 0x0D \<and> d = CHR 0x0A then acc # splitlines_from [] cs
      else if is_linebreak c then acc # splitlines_from [] (d # cs)
      else splitlines_from (acc @ [c]) (d # cs))"

definition splitlines :: "string \<Rightarrow> string list" where
  "splitlines s = splitlines_from [] s"

section \<open>The test-run listener\<close>

datatype target = Path string | Stream nat

text \<open>
  The fields of an \<open>XMLTestResult\<close>. Of the state kept by the superclass
  \<open>unittest.TestResult\<close> the model has what the subclass reads or sets: the \<open>buffer\<close>
  flag, the two capture buffers (\<open>None\<close> until the first test starts), and whether
  \<open>sys.stdout\<close> and \<open>sys.stderr\<close> currently are these buffers.
\<close>

record xml_result =
  builder :: xml_context_builder
  last_suite :: "string option"
  out_dir :: target
  out_suffix :: string
  buffer :: bool
  stdout_buffer :: "string option"
  stderr_buffer :: "string option"
  redirected :: bool

definition with_builder ::
  "(xml_context_builder \<Rightarrow> xml_context_builder result) \<Rightarrow> xml_result \<Rightarrow> xml_result result" where
  "with_builder f self =
     (case f (builder self) of
        Ok b \<Rightarrow> Ok (self\<lparr>builder := b\<rparr>)
      | Raised e b \<Rightarrow> Raised e (self\<lparr>builder := b\<rparr>))"

definition on_builder ::
  "(xml_context_builder \<Rightarrow> xml_context_builder) \<Rightarrow> xml_result \<Rightarrow> xml_result" where
  "on_builder f self = self\<lparr>builder := f (builder self)\<rparr>"

subsection \<open>The superclass\<close>

text \<open>
  \<open>TestResult.startTest\<close> calls \<open>_setupStdout\<close>: with \<open>buffer\<close> set it creates the two
  buffers if they do not exist yet and redirects the standard streams to them.
\<close>

definition super_startTest :: "xml_result \<Rightarrow> xml_result" where
  "super_startTest self =
     (if buffer self then
        (if stderr_buffer self = None
         then self\<lparr>stdout_buffer := Some [], stderr_buffer := Some [], redirected := True\<rparr>
         else self\<lparr>redirected := True\<rparr>)
      else self)"

text \<open>
  \<open>TestResult.stopTest\<close> calls \<open>_restoreStdout\<close>: with \<open>buffer\<close> set it restores the
  standard streams and empties both buffers (\<open>seek(0)\<close>, \<open>truncate()\<close>).
\<close>

definition super_stopTest :: "xml_result \<Rightarrow> xml_result result" where
  "super_stopTest self =
     (if buffer self then
        (case (stdout_buffer self, stderr_buffer self) of
           (Some _, Some _) \<Rightarrow>
             Ok (self\<lparr>stdout_buffer := Some [], stderr_buffer := Some [], redirected := False\<rparr>)
         | _ \<Rightarrow> Raised AttributeError (self\<lparr>redirected := False\<rparr>))
      else Ok self)"

text \<open>What a running test prints goes to the buffers while the streams are redirected.\<close>

definition test_writes :: "string \<Rightarrow> string \<Rightarrow> xml_result \<Rightarrow> xml_result" where
  "test_writes out err self =
     (if redirected self then
        self\<lparr>stdout_buffer := map_option (\<lambda>b. b @ out) (stdout_buffer self),
             stderr_buffer := map_option (\<lambda>b. b @ err) (stderr_buffer self)\<rparr>
      else self)"

subsection \<open>The callbacks\<close>

definition test_class_name :: "test_case \<Rightarrow> string" where
  "test_class_name test = strclass test"

definition get_description :: "test_case \<Rightarrow> string" where
  "get_description test =
     (case shortDescription test of
        Some doc_first_line \<Rightarrow>
          if doc_first_line \<noteq> [] then doc_first_line else testMethodName test
      | None \<Rightarrow> testMethodName test)"

definition current_suite_finished :: "xml_result \<Rightarrow> test_case \<Rightarrow> bool" where
  "current_suite_finished self test \<longleftrightarrow> last_suite self \<noteq> Some (test_class_name test)"

definition truthy :: "string option \<Rightarrow> bool" where
  "truthy v = (case v of None \<Rightarrow> False | Some s \<Rightarrow> s \<noteq> [])"

definition start_new_suite :: "test_case \<Rightarrow> xml_result \<Rightarrow> xml_result result" where
  "start_new_suite test self =
     and_then
       (if truthy (last_suite self) then with_builder end_context self else Ok self)
       (\<lambda>self. let self = self\<lparr>last_suite := Some (test_class_name test)\<rparr>
               in Ok (on_builder (begin_context ''testsuite'' (the (last_suite self))) self))"

definition startTestRun :: "xml_result \<Rightarrow> xml_result" where
  "startTestRun self = on_builder (begin_context ''testsuites'' ''TestSuites'') self"

definition startTest :: "test_case \<Rightarrow> xml_result \<Rightarrow> xml_result result" where
  "startTest test self0 =
     (let self = super_startTest self0
      in and_then
           (if context_tag (builder self) = ''testsuites'' \<or> current_suite_finished self test
            then start_new_suite test self else Ok self)
           (\<lambda>self. Ok (on_builder (begin_context ''testcase'' (get_description test)) self)))"

definition stopTest :: "test_case \<Rightarrow> xml_result \<Rightarrow> xml_result result" where
  "stopTest test self =
     (case stdout_buffer self of
        None \<Rightarrow> Raised AttributeError self
      | Some out_data \<Rightarrow>
     (case stderr_buffer self of
        None \<Rightarrow> Raised AttributeError self
      | Some err_data \<Rightarrow>
          and_then (super_stopTest self) (\<lambda>self.
          and_then (if out_data \<noteq> []
                    then with_builder (append_cdata_section ''system-out'' out_data) self
                    else Ok self) (\<lambda>self.
          and_then (if err_data \<noteq> []
                    then with_builder (append_cdata_section ''system-err'' err_data) self
                    else Ok self) (\<lambda>self.
          with_builder end_context (on_builder (increment_counter ''tests'') self))))))"

definition addSkip :: "test_case \<Rightarrow> string \<Rightarrow> xml_result \<Rightarrow> xml_result result" where
  "addSkip test reason self =
     with_builder (append_leaf ''skipped'' None [(''message'', reason)])
       (on_builder (increment_counter ''skipped'') self)"

text \<open>
  \<open>fmt\<close> stands for \<open>self._exc_info_to_string\<close>, the traceback formatter inherited from
  the superclass.
\<close>

definition append_error_data ::
  "(xml_result \<Rightarrow> exc_info \<Rightarrow> test_case \<Rightarrow> string) \<Rightarrow> test_case \<Rightarrow> string \<Rightarrow> exc_info option
     \<Rightarrow> xml_result \<Rightarrow> xml_result result" where
  "append_error_data fmt test error_type err self =
     (let params = [(''message'', ''Unexpected success'')]
      in case err of
           None \<Rightarrow> with_builder (append_leaf error_type None params) self
         | Some e \<Rightarrow>
             (let params = AList.update ''type'' (exctype_name e) params
              in case splitlines (value_str e) of
                   [] \<Rightarrow> Raised IndexError self
                 | first_line # _ \<Rightarrow>
                     (let params = AList.update ''message'' first_line params;
                          cdata = Some (fmt self e test)
                      in with_builder (append_leaf error_type cdata params) self)))"

definition add_generic_failure ::
  "(xml_result \<Rightarrow> exc_info \<Rightarrow> test_case \<Rightarrow> string) \<Rightarrow> test_case \<Rightarrow> exc_info option
     \<Rightarrow> xml_result \<Rightarrow> xml_result result" where
  "add_generic_failure fmt test err self =
     append_error_data fmt test ''failure'' err (on_builder (increment_counter ''failures'') self)"

definition addError ::
  "(xml_result \<Rightarrow> exc_info \<Rightarrow> test_case \<Rightarrow> string) \<Rightarrow> test_case \<Rightarrow> exc_info
     \<Rightarrow> xml_result \<Rightarrow> xml_result result" where
  "addError fmt test err self =
     append_error_data fmt test ''error'' (Some err) (on_builder (increment_counter ''errors'') self)"

definition addFailure ::
  "(xml_result \<Rightarrow> exc_info \<Rightarrow> test_case \<Rightarrow> string) \<Rightarrow> test_case \<Rightarrow> exc_info
     \<Rightarrow> xml_result \<Rightarrow> xml_result result" where
  "addFailure fmt test err self = add_generic_failure fmt test (Some err) self"

definition addUnexpectedSuccess ::
  "(xml_result \<Rightarrow> exc_info \<Rightarrow> test_case \<Rightarrow> string) \<Rightarrow> test_case
     \<Rightarrow> xml_result \<Rightarrow> xml_result result" where
  "addUnexpectedSuccess fmt test self = add_generic_failure fmt test None self"

subsection \<open>Timestamps and templates\<close>

text \<open>The broken-down local time that \<open>time.strftime\<close> formats when the clock is read.\<close>

record struct_time =
  tm_year :: nat
  tm_mon :: nat
  tm_mday :: nat
  tm_hour :: nat
  tm_min :: nat
  tm_sec :: nat

definition digit :: "nat \<Rightarrow> char" where
  "digit d = ''0123456789'' ! (d mod 10)"

function decimal :: "nat \<Rightarrow> string" where
  "decimal n = (if n < 10 then [digit n] else decimal (n div 10) @ [digit n])"
  by pat_completeness auto
termination
  by (relation "measure (\<lambda>n. n)") auto

declare decimal.simps [simp del]

definition two_digits :: "nat \<Rightarrow> string" where
  "two_digits n = [digit (n div 10), digit n]"

text \<open>
  The conversions of \<open>strftime\<close> that the source uses: \<open>%Y\<close> is the year with century,
  \<open>%m\<close>, \<open>%d\<close>, \<open>%H\<close>, \<open>%M\<close> and \<open>%S\<close> are zero-padded to two digits. Any other
  character pair is copied.
\<close>

definition conversion :: "char \<Rightarrow> struct_time \<Rightarrow> string" where
  "conversion c tm =
     (if c = CHR ''Y'' then decimal (tm_year tm)
      else if c = CHR ''m'' then two_digits (tm_mon tm)
      else if c = CHR ''d'' then two_digits (tm_mday tm)
      else if c = CHR ''H'' then two_digits (tm_hour tm)
      else if c = CHR ''M'' then two_digits (tm_min tm)
      else if c = CHR ''S'' then two_digits (tm_sec tm)
      else [CHR ''%'', c])"

fun strftime :: "string \<Rightarrow> struct_time \<Rightarrow> string" where
  "strftime [] tm = []"
| "strftime [c] tm = [c]"
| "strftime (c # d # cs) tm =
     (if c = CHR ''%'' then conversion d tm @ strftime cs tm
      else c # strftime (d # cs) tm)"

definition timestamp :: "struct_time \<Rightarrow> string" where
  "timestamp now = strftime ''%Y%m%dT%H%M%S'' now"

text \<open>
  \<open>str.format\<close> with positional arguments that are strings. Replacement fields are
  \<open>{}\<close> (automatic numbering) and \<open>{N}\<close>; \<open>{{\<close> and \<open>}}\<close> are literal braces. A field
  with a conversion, a format specification, an attribute or an index is outside the
  model (\<open>NotModelled\<close>); any other field name is a missing keyword argument.
\<close>

datatype fstate = Text | Opened | Field string | Closing

datatype numbering = Unset | Automatic nat | Manual

definition is_digit :: "char \<Rightarrow> bool" where
  "is_digit c \<longleftrightarrow> c \<in> set ''0123456789''"

definition digit_value :: "char \<Rightarrow> nat" where
  "digit_value c = of_char c - 48"

definition index_of :: "string \<Rightarrow> nat" where
  "index_of nm = foldl (\<lambda>n c. 10 * n + digit_value c) 0 nm"

definition resolve :: "string \<Rightarrow> numbering \<Rightarrow> string list \<Rightarrow> error + (string \<times> numbering)" where
  "resolve nm num args =
     (if nm = [] then
        (case num of
           Manual \<Rightarrow> Inl ValueError
         | Unset \<Rightarrow> if 0 < length args then Inr (args ! 0, Automatic 1) else Inl IndexError
         | Automatic i \<Rightarrow> if i < length args then Inr (args ! i, Automatic (i + 1)) else Inl IndexError)
      else if list_all is_digit nm then
        (case num of
           Automatic _ \<Rightarrow> Inl ValueError
         | _ \<Rightarrow> if index_of nm < length args then Inr (args ! index_of nm, Manual) else Inl IndexError)
      else if list_ex (\<lambda>c. c \<in> set ''!:.['') nm then Inl NotModelled
      else Inl KeyError)"

fun scan :: "fstate \<Rightarrow> numbering \<Rightarrow> string list \<Rightarrow> string \<Rightarrow> string \<Rightarrow> error + string" where
  "scan st num args out [] = (case st of Text \<Rightarrow> Inr out | _ \<Rightarrow> Inl ValueError)"
| "scan st num args out (c # cs) =
     (case st of
        Text \<Rightarrow>
          if c = CHR ''{'' then scan Opened num args out cs
          else if c = CHR ''}'' then scan Closing num args out cs
          else scan Text num args (out @ [c]) cs
      | Opened \<Rightarrow>
          if c = CHR ''{'' then scan Text num args (out @ [c]) cs
          else if c = CHR ''}'' then
            (case resolve [] num args of
               Inl e \<Rightarrow> Inl e
             | Inr (v, num') \<Rightarrow> scan Text num' args (out @ v) cs)
          else scan (Field [c]) num args out cs
      | Field nm \<Rightarrow>
          if c = CHR ''}'' then
            (case resolve nm num args of
               Inl e \<Rightarrow> Inl e
             | Inr (v, num') \<Rightarrow> scan Text num' args (out @ v) cs)
          else if c = CHR ''{'' then
            Inl (if CHR '':'' \<in> set nm then NotModelled else ValueError)
          else scan (Field (nm @ [c])) num args out cs
      | Closing \<Rightarrow>
          if c = CHR ''}'' then scan Text num args (out @ [c]) cs
          else Inl ValueError)"

definition py_format :: "string \<Rightarrow> string list \<Rightarrow> error + string" where
  "py_format template args = scan Text Unset args [] template"

subsection \<open>Construction and report output\<close>

text \<open>
  \<open>__init__\<close>; \<open>now\<close> is the local time at the moment the constructor reads the clock.
  The superclass constructor ignores \<open>stream\<close>, \<open>descriptions\<close> and \<open>verbosity\<close>, clears
  \<open>buffer\<close> and leaves the capture buffers unset.
\<close>

definition init ::
  "'a \<Rightarrow> 'b \<Rightarrow> 'c \<Rightarrow> target \<Rightarrow> string option \<Rightarrow> struct_time \<Rightarrow> error + xml_result" where
  "init stream descriptions verbosity dir suffix now =
     (let self = \<lparr>builder = XMLContextBuilder, last_suite = None, out_dir = dir,
                  out_suffix = [], buffer = True,
                  stdout_buffer = None, stderr_buffer = None, redirected = False\<rparr>
      in if truthy suffix then
           (case py_format (the suffix) [timestamp now] of
              Inl e \<Rightarrow> Inl e
            | Inr s \<Rightarrow> Inr (self\<lparr>out_suffix := s\<rparr>))
         else Inr (self\<lparr>out_suffix := timestamp now\<rparr>))"

text \<open>
  The part of the outside world that writing the report touches: the path separator
  \<open>os.sep\<close>, the paths that exist, the contents of files, and what has been written to
  each open stream. Whether the operating system refuses a call, and with which error
  (a missing permission, a regular file in the way, a full disk), is the environment's
  choice: \<open>refuses\<close> gives it for every call. The ghost field \<open>io_calls\<close> lists the
  calls that were carried out, oldest first.
\<close>

datatype io_call =
    MakeDirs string
  | OpenForWriting string
  | WriteFile string string
  | WriteStream nat string

record world =
  os_sep :: string
  existing :: "string set"
  files :: "string \<rightharpoonup> string"
  streams :: "nat \<Rightarrow> string"
  refuses :: "io_call \<Rightarrow> error option"
  io_calls :: "io_call list"

definition attempt :: "io_call \<Rightarrow> (world \<Rightarrow> world) \<Rightarrow> world \<Rightarrow> world result" where
  "attempt c effect w =
     (case refuses w c of
        Some e \<Rightarrow> Raised e w
      | None \<Rightarrow> Ok ((effect w)\<lparr>io_calls := io_calls w @ [c]\<rparr>))"

text \<open>\<open>os.path.exists(path)\<close>; the empty path does not exist.\<close>

definition path_exists :: "string \<Rightarrow> world \<Rightarrow> bool" where
  "path_exists p w \<longleftrightarrow> p \<noteq> [] \<and> p \<in> existing w"

text \<open>
  \<open>os.makedirs(path)\<close> raises \<open>FileNotFoundError\<close> for the empty path and
  \<open>FileExistsError\<close> for a path that exists.
\<close>

definition makedirs :: "string \<Rightarrow> world \<Rightarrow> world result" where
  "makedirs d w =
     (if d = [] then Raised FileNotFoundError w
      else if d \<in> existing w then Raised FileExistsError w
      else attempt (MakeDirs d) (\<lambda>w. w\<lparr>existing := insert d (existing w)\<rparr>) w)"

text \<open>\<open>open(filename, 'w')\<close> creates the file or truncates it.\<close>

definition open_w :: "string \<Rightarrow> world \<Rightarrow> world result" where
  "open_w filename w =
     attempt (OpenForWriting filename)
       (\<lambda>w. w\<lparr>existing := insert filename (existing w), files := (files w)(filename \<mapsto> [])\<rparr>) w"

definition write_file :: "string \<Rightarrow> string \<Rightarrow> world \<Rightarrow> world result" where
  "write_file filename txt w =
     attempt (WriteFile filename txt)
       (\<lambda>w. w\<lparr>files := (files w)(filename \<mapsto>
                 (case files w filename of None \<Rightarrow> txt | Some old \<Rightarrow> old @ txt))\<rparr>) w"

definition write_stream :: "nat \<Rightarrow> string \<Rightarrow> world \<Rightarrow> world result" where
  "write_stream h txt w =
     attempt (WriteStream h txt) (\<lambda>w. w\<lparr>streams := (streams w)(h := streams w h @ txt)\<rparr>) w"

definition in_world ::
  "(world \<Rightarrow> world result) \<Rightarrow> world \<times> xml_result \<Rightarrow> (world \<times> xml_result) result" where
  "in_world f ws =
     (case f (fst ws) of
        Ok w \<Rightarrow> Ok (w, snd ws)
      | Raised e w \<Rightarrow> Raised e (w, snd ws))"

text \<open>
  \<open>_generate_report\<close>. The directory is made and the file opened before the argument
  of \<open>stream.write\<close>, the call of \<open>finish\<close>, is evaluated; an error of any step ends
  the method. \<open>fin\<close> stands for \<open>self._builder.finish\<close>, whose code (\<open>builder.py\<close>) is
  missing: it takes the builder and returns the serialised document, or raises, and
  the builder as it leaves it. The specification's version of it is \<open>finish render\<close>.
\<close>

definition generate_report ::
  "(xml_context_builder \<Rightarrow> (error + string) \<times> xml_context_builder)
     \<Rightarrow> world \<times> xml_result \<Rightarrow> (world \<times> xml_result) result" where
  "generate_report fin ws =
     (let w = fst ws; self = snd ws
      in case out_dir self of
           Path d \<Rightarrow>
             (case py_format ''{0}{1}TESTS-TestSuites-{3}.xml''
                     [d, os_sep w, ''suite'', out_suffix self] of
                Inl e \<Rightarrow> Raised e (w, self)
              | Inr filename \<Rightarrow>
                  and_then
                    (in_world (\<lambda>w. if \<not> path_exists d w then makedirs d w else Ok w) (w, self))
                    (\<lambda>ws.
                  and_then (in_world (open_w filename) ws) (\<lambda>ws.
                    case fin (builder self) of
                      (Inl e, b) \<Rightarrow> Raised e (fst ws, self\<lparr>builder := b\<rparr>)
                    | (Inr doc, b) \<Rightarrow>
                        in_world (write_file filename doc) (fst ws, self\<lparr>builder := b\<rparr>))))
         | Stream h \<Rightarrow>
             (case fin (builder self) of
                (Inl e, b) \<Rightarrow> Raised e (w, self\<lparr>builder := b\<rparr>)
              | (Inr doc, b) \<Rightarrow> in_world (write_stream h doc) (w, self\<lparr>builder := b\<rparr>)))"

definition stopTestRun ::
  "(xml_context_builder \<Rightarrow> (error + string) \<times> xml_context_builder)
     \<Rightarrow> world \<times> xml_result \<Rightarrow> (world \<times> xml_result) result" where
  "stopTestRun fin ws = generate_report fin ws"

subsection \<open>A run as the test framework drives it\<close>

text \<open>
  What the framework reports about one test between \<open>startTest\<close> and \<open>stopTest\<close>.
  \<open>addSuccess\<close> and the other callbacks that the class does not override reach no
  builder call; \<open>Success\<close> stands for them.
\<close>

datatype event = Skip string | Error exc_info | Failure exc_info | UnexpectedSuccess | Success

record execution =
  tested :: test_case
  printed_out :: string
  printed_err :: string
  reported :: "event list"

definition report ::
  "(xml_result \<Rightarrow> exc_info \<Rightarrow> test_case \<Rightarrow> string) \<Rightarrow> test_case \<Rightarrow> event
     \<Rightarrow> xml_result \<Rightarrow> xml_result result" where
  "report fmt t ev self =
     (case ev of
        Skip reason \<Rightarrow> addSkip t reason self
      | Error err \<Rightarrow> addError fmt t err self
      | Failure err \<Rightarrow> addFailure fmt t err self
      | UnexpectedSuccess \<Rightarrow> addUnexpectedSuccess fmt t self
      | Success \<Rightarrow> Ok self)"

fun report_all ::
  "(xml_result \<Rightarrow> exc_info \<Rightarrow> test_case \<Rightarrow> string) \<Rightarrow> test_case \<Rightarrow> event list
     \<Rightarrow> xml_result \<Rightarrow> xml_result result" where
  "report_all fmt t [] self = Ok self"
| "report_all fmt t (ev # evs) self = and_then (report fmt t ev self) (report_all fmt t evs)"

definition run_test ::
  "(xml_result \<Rightarrow> exc_info \<Rightarrow> test_case \<Rightarrow> string) \<Rightarrow> execution
     \<Rightarrow> xml_result \<Rightarrow> xml_result result" where
  "run_test fmt x self =
     and_then (startTest (tested x) self) (\<lambda>self.
     and_then (report_all fmt (tested x) (reported x)
                 (test_writes (printed_out x) (printed_err x) self))
       (stopTest (tested x)))"

fun run_tests ::
  "(xml_result \<Rightarrow> exc_info \<Rightarrow> test_case \<Rightarrow> string) \<Rightarrow> execution list
     \<Rightarrow> xml_result \<Rightarrow> xml_result result" where
  "run_tests fmt [] self = Ok self"
| "run_tests fmt (x # xs) self = and_then (run_test fmt x self) (run_tests fmt xs)"

section \<open>What the specification says about a run\<close>

text \<open>
  The views of the builder's journal that the properties below are stated on, the
  states a well-formed run passes through, and the calls that section 4.2 of the
  specification prescribes.
\<close>

definition state_of :: "'s result \<Rightarrow> 's" where
  "state_of r = (case r of Ok s \<Rightarrow> s | Raised e s \<Rightarrow> s)"

definition is_context_call :: "bcall \<Rightarrow> bool" where
  "is_context_call c = (case c of BeginContext _ _ \<Rightarrow> True | EndContext \<Rightarrow> True | _ \<Rightarrow> False)"

definition is_capture_call :: "bcall \<Rightarrow> bool" where
  "is_capture_call c =
     (case c of BeginContext t _ \<Rightarrow> t = ''testcase'' | AppendCdataSection _ _ \<Rightarrow> True | _ \<Rightarrow> False)"

definition is_report_call :: "bcall \<Rightarrow> bool" where
  "is_report_call c = (case c of IncrementCounter _ \<Rightarrow> True | Append _ _ _ \<Rightarrow> True | _ \<Rightarrow> False)"

text \<open>The key of the suite context that is open below the root, if there is one.\<close>

definition open_suite :: "xml_result \<Rightarrow> string option" where
  "open_suite self =
     (case stack (builder self) of root # suite # _ \<Rightarrow> Some (name suite) | _ \<Rightarrow> None)"

text \<open>
  Between two tests of a run: the root context is open, alone or with one suite context
  whose key the listener remembers; output is being buffered and the buffers are empty.
\<close>

definition captures_clear :: "xml_result \<Rightarrow> bool" where
  "captures_clear self \<longleftrightarrow>
     buffer self \<and>
     (stdout_buffer self = None \<and> stderr_buffer self = None \<or>
      stdout_buffer self = Some [] \<and> stderr_buffer self = Some [])"

definition between_tests :: "xml_result \<Rightarrow> bool" where
  "between_tests self \<longleftrightarrow>
     captures_clear self \<and>
     (case stack (builder self) of
        [root] \<Rightarrow> tag root = ''testsuites'' \<and> last_suite self = None
      | [root, suite] \<Rightarrow>
          tag root = ''testsuites'' \<and> tag suite = ''testsuite'' \<and>
          last_suite self = Some (name suite) \<and> name suite \<noteq> []
      | _ \<Rightarrow> False)"

text \<open>Within a test: the root, one suite and the testcase context are open.\<close>

definition within_test :: "xml_result \<Rightarrow> bool" where
  "within_test self \<longleftrightarrow>
     buffer self \<and> stdout_buffer self \<noteq> None \<and> stderr_buffer self \<noteq> None \<and>
     (case stack (builder self) of
        [root, suite, tc] \<Rightarrow>
          tag root = ''testsuites'' \<and> tag suite = ''testsuite'' \<and>
          last_suite self = Some (name suite) \<and> name suite \<noteq> []
      | _ \<Rightarrow> False)"

text \<open>An event that carries an exception is recorded if the exception has a message.\<close>

definition reportable :: "event \<Rightarrow> bool" where
  "reportable ev =
     (case ev of Error err \<Rightarrow> value_str err \<noteq> [] | Failure err \<Rightarrow> value_str err \<noteq> [] | _ \<Rightarrow> True)"

text \<open>
  Specification, test start: the testcase is named by the first line of the test's
  documentation string, falling back to its method name.
\<close>

definition spec_description :: "test_case \<Rightarrow> string" where
  "spec_description t =
     (case shortDescription t of
        None \<Rightarrow> testMethodName t
      | Some line \<Rightarrow> if line = [] then testMethodName t else line)"

text \<open>
  Specification, test start: if no suite is open yet, or the incoming test's grouping
  key differs from the last opened suite's key, close the previous suite context (if
  any) and open a new testsuite context keyed by the new grouping key; then always open
  a new testcase context. \<open>cur\<close> is the key of the suite that is open.
\<close>

definition spec_startTest :: "string option \<Rightarrow> test_case \<Rightarrow> bcall list" where
  "spec_startTest cur t =
     (if cur = None \<or> cur \<noteq> Some (strclass t)
      then (case cur of None \<Rightarrow> [] | Some _ \<Rightarrow> [EndContext])
           @ [BeginContext ''testsuite'' (strclass t)]
      else [])
     @ [BeginContext ''testcase'' (spec_description t)]"

text \<open>The context calls of a whole sequence of tests; each test stop closes its testcase.\<close>

fun spec_contexts :: "string option \<Rightarrow> test_case list \<Rightarrow> bcall list" where
  "spec_contexts cur [] = []"
| "spec_contexts cur (t # ts) =
     spec_startTest cur t @ [EndContext] @ spec_contexts (Some (strclass t)) ts"

text \<open>
  Specification, test stop: captured stdout goes into a \<open>system-out\<close> leaf and captured
  stderr into a \<open>system-err\<close> leaf, each only if non-empty.
\<close>

definition spec_flush :: "string \<Rightarrow> string \<Rightarrow> bcall list" where
  "spec_flush out err =
     (if out \<noteq> [] then [AppendCdataSection ''system-out'' out] else [])
     @ (if err \<noteq> [] then [AppendCdataSection ''system-err'' err] else [])"

definition spec_captures :: "execution \<Rightarrow> bcall list" where
  "spec_captures x =
     BeginContext ''testcase'' (spec_description (tested x))
     # spec_flush (printed_out x) (printed_err x)"

section \<open>What the specification says about the report file\<close>

text \<open>
  Specification, section 6: the file is named \<open>TESTS-TestSuites-<suffix>.xml\<close> inside the
  output directory.
\<close>

definition report_path :: "string \<Rightarrow> string \<Rightarrow> string \<Rightarrow> string" where
  "report_path dir sep suffix = dir @ sep @ ''TESTS-TestSuites-'' @ suffix @ ''.xml''"

text \<open>Specification, section 6: the timestamp has the format \<open>YYYYMMDDTHHMMSS\<close>.\<close>

definition is_timestamp :: "string \<Rightarrow> bool" where
  "is_timestamp s \<longleftrightarrow>
     length s = 15 \<and> list_all is_digit (take 8 s) \<and> s ! 8 = CHR ''T''
     \<and> list_all is_digit (drop 9 s)"

text \<open>The number that a string of decimal digits denotes.\<close>

definition read_decimal :: "string \<Rightarrow> nat" where
  "read_decimal s = foldl (\<lambda>n c. 10 * n + (of_char c - 48)) 0 s"

text \<open>
  Specification, section 6: the timestamp is that of the clock. Read back, its fields
  \<open>YYYY\<close>, \<open>MM\<close>, \<open>DD\<close>, \<open>HH\<close>, \<open>MM\<close> and \<open>SS\<close> are the year, month, day, hour, minute
  and second of the time.
\<close>

definition shows_time :: "string \<Rightarrow> struct_time \<Rightarrow> bool" where
  "shows_time s tm \<longleftrightarrow>
     is_timestamp s \<and>
     read_decimal (take 4 s) = tm_year tm \<and>
     read_decimal (take 2 (drop 4 s)) = tm_mon tm \<and>
     read_decimal (take 2 (drop 6 s)) = tm_mday tm \<and>
     read_decimal (take 2 (drop 9 s)) = tm_hour tm \<and>
     read_decimal (take 2 (drop 11 s)) = tm_min tm \<and>
     read_decimal (take 2 (drop 13 s)) = tm_sec tm"

text \<open>A local time as the clock gives it, in a year of four digits.\<close>

definition calendar_time :: "struct_time \<Rightarrow> bool" where
  "calendar_time tm \<longleftrightarrow>
     1000 \<le> tm_year tm \<and> tm_year tm \<le> 9999 \<and> 1 \<le> tm_mon tm \<and> tm_mon tm \<le> 12 \<and>
     1 \<le> tm_mday tm \<and> tm_mday tm \<le> 31 \<and> tm_hour tm \<le> 23 \<and> tm_min tm \<le> 59 \<and>
     tm_sec tm \<le> 61"

text \<open>
  Specification, section 7: I/O errors propagate. The report can be opened if the target
  is a stream, or a non-empty directory path that exists or that the system lets the
  listener make, and the system lets it open the report file there.
\<close>

definition can_open :: "world \<Rightarrow> target \<Rightarrow> string \<Rightarrow> bool" where
  "can_open w tgt suffix =
     (case tgt of
        Stream h \<Rightarrow> True
      | Path d \<Rightarrow>
          d \<noteq> [] \<and> (d \<in> existing w \<or> refuses w (MakeDirs d) = None) \<and>
          refuses w (OpenForWriting (report_path d (os_sep w) suffix)) = None)"

text \<open>The document can be written if the system lets the listener write it.\<close>

definition can_write :: "world \<Rightarrow> target \<Rightarrow> string \<Rightarrow> string \<Rightarrow> bool" where
  "can_write w tgt suffix doc =
     (case tgt of
        Stream h \<Rightarrow> refuses w (WriteStream h doc) = None
      | Path d \<Rightarrow> refuses w (WriteFile (report_path d (os_sep w) suffix) doc) = None)"

text \<open>Where the report goes: the output target and the suffix of the file name.\<close>

definition report_target :: "xml_result \<Rightarrow> target \<times> string" where
  "report_target self = (out_dir self, out_suffix self)"

text \<open>Template text around a placeholder: it has no brace of its own.\<close>

definition brace_free :: "string \<Rightarrow> bool" where
  "brace_free s \<longleftrightarrow> CHR ''{'' \<notin> set s \<and> CHR ''}'' \<notin> set s"

section \<open>A small run\<close>

text \<open>
  A listener as the constructor leaves it, two tests of one class and one of another,
  and the states of a run of the first test. The properties below are tried on them.
\<close>

definition example_time :: struct_time where
  "example_time =
     \<lparr>tm_year = 2013, tm_mon = 1, tm_mday = 2, tm_hour = 3, tm_min = 4, tm_sec = 5\<rparr>"

definition example_listener :: xml_result where
  "example_listener =
     \<lparr>builder = XMLContextBuilder, last_suite = None, out_dir = Path ''reports'',
      out_suffix = ''20130102T030405'', buffer = True,
      stdout_buffer = None, stderr_buffer = None, redirected = False\<rparr>"

definition test_a :: test_case where
  "test_a = \<lparr>test_module = ''pkg'', test_class = ''Foo'', testMethodName = ''test_a'',
             shortDescription = None\<rparr>"

definition test_b :: test_case where
  "test_b = \<lparr>test_module = ''pkg'', test_class = ''Foo'', testMethodName = ''test_b'',
             shortDescription = Some ''b works''\<rparr>"

definition test_c :: test_case where
  "test_c = \<lparr>test_module = ''pkg'', test_class = ''Bar'', testMethodName = ''test_c'',
             shortDescription = Some []\<rparr>"

definition example_started :: xml_result where
  "example_started = startTestRun example_listener"

definition example_within :: xml_result where
  "example_within = test_writes ''hello'' [] (state_of (startTest test_a example_started))"

definition example_stopped :: xml_result where
  "example_stopped = state_of (stopTest test_a example_within)"

definition no_traceback :: "xml_result \<Rightarrow> exc_info \<Rightarrow> test_case \<Rightarrow> string" where
  "no_traceback self err t = ''Traceback''"

definition example_run :: "execution list" where
  "example_run =
     [\<lparr>tested = test_a, printed_out = ''hello'', printed_err = [], reported = []\<rparr>,
      \<lparr>tested = test_b, printed_out = [], printed_err = [], reported = [Skip ''not yet'']\<rparr>,
      \<lparr>tested = test_c, printed_out = [], printed_err = ''warn'',
       reported = [Error \<lparr>exctype_name = ''ValueError'', value_str = ''boom'', tb_frames = []\<rparr>]\<rparr>]"

definition example_world :: world where
  "example_world =
     \<lparr>os_sep = ''/'', existing = {}, files = Map.empty, streams = (\<lambda>_. []),
      refuses = (\<lambda>_. None), io_calls = []\<rparr>"

definition example_render :: "node \<Rightarrow> string" where
  "example_render nd = (case nd of Leaf t _ _ \<Rightarrow> t | Element t _ _ _ \<Rightarrow> t)"

text \<open>
  A \<open>finish\<close> of another make than the specification's: it closes every context that is
  still open, innermost first, and renders the root.
\<close>

definition closing_finish :: "xml_context_builder \<Rightarrow> (error + string) \<times> xml_context_builder" where
  "closing_finish b =
     (let b1 = (close_top ^^ length (stack b)) (received Finish b)
      in case document b1 of
           None \<Rightarrow> (Inl MalformedStack, b1)
         | Some d \<Rightarrow> (Inr (example_render d), b1))"

section \<open>Properties of the builder operations\<close>

lemma and_then_Ok: "and_then (Ok s) f = f s"
  by (simp add: and_then_def)

lemma and_then_Raised: "and_then (Raised e s) f = Raised e s"
  by (simp add: and_then_def)

lemma append_leaf_top:
  "stack b = outer @ [c] \<Longrightarrow>
   append_leaf t cdata attrs b =
     Ok (b\<lparr>stack := outer @ [add_child (Leaf t (cdata_body cdata) attrs) c],
           journal := journal b @ [Append t cdata attrs]\<rparr>)"
  by (simp add: append_leaf_def append_child_def received_def)

lemma append_cdata_section_top:
  "stack b = outer @ [c] \<Longrightarrow>
   append_cdata_section t txt b =
     Ok (b\<lparr>stack := outer @ [add_child (Leaf t (Some txt) []) c],
           journal := journal b @ [AppendCdataSection t txt]\<rparr>)"
  by (simp add: append_cdata_section_def append_child_def received_def)

lemma increment_counter_top:
  "stack b = outer @ [c] \<Longrightarrow>
   increment_counter n b =
     b\<lparr>stack := map (bump n) outer @ [bump n c], journal := journal b @ [IncrementCounter n]\<rparr>"
  by (simp add: increment_counter_def received_def)

lemma end_context_nested:
  "stack b = outer @ [p, c] \<Longrightarrow>
   end_context b =
     Ok (b\<lparr>stack := outer @ [add_child (closed c) p], journal := journal b @ [EndContext]\<rparr>)"
  by (simp add: end_context_def close_top_def received_def Let_def butlast_append)

lemma splitlines_empty: "splitlines [] = []"
  by (simp add: splitlines_def)

lemma splitlines_from_nonempty: "acc \<noteq> [] \<or> s \<noteq> [] \<Longrightarrow> splitlines_from acc s \<noteq> []"
  by (induction acc s rule: splitlines_from.induct) auto

lemma splitlines_nonempty: "s \<noteq> [] \<Longrightarrow> splitlines s \<noteq> []"
  by (simp add: splitlines_def splitlines_from_nonempty)

lemma super_stopTest_Ok:
  assumes "stdout_buffer self = Some out_data" and "stderr_buffer self = Some err_data"
  shows "\<exists>self1. super_stopTest self = Ok self1 \<and> builder self1 = builder self
           \<and> last_suite self1 = last_suite self \<and> buffer self1 = buffer self
           \<and> (buffer self \<longrightarrow> stdout_buffer self1 = Some [] \<and> stderr_buffer self1 = Some [])"
  using assms by (simp add: super_stopTest_def)

lemmas example_defs =
  example_listener_def example_started_def example_within_def example_stopped_def
  test_a_def test_b_def test_c_def XMLContextBuilder_def

lemmas listener_defs =
  startTestRun_def startTest_def stopTest_def super_startTest_def super_stopTest_def
  start_new_suite_def current_suite_finished_def test_class_name_def strclass_def
  get_description_def truthy_def test_writes_def with_builder_def on_builder_def
  and_then_def state_of_def

lemmas builder_defs =
  begin_context_def end_context_def close_top_def context_tag_def increment_counter_def
  append_cdata_section_def append_leaf_def append_child_def received_def add_child_def
  bump_def closed_def cdata_body_def

lemma stack_example_within:
  "stack (builder example_within) =
     [\<lparr>tag = ''testsuites'', name = ''TestSuites'', counters = (\<lambda>_. 0), children = []\<rparr>,
      \<lparr>tag = ''testsuite'', name = ''pkg.Foo'', counters = (\<lambda>_. 0), children = []\<rparr>]
     @ [\<lparr>tag = ''testcase'', name = ''test_a'', counters = (\<lambda>_. 0), children = []\<rparr>]"
  by (simp add: example_defs listener_defs builder_defs)

lemma journal_example_within:
  "journal (builder example_within) =
     [BeginContext ''testsuites'' ''TestSuites'', BeginContext ''testsuite'' ''pkg.Foo'',
      BeginContext ''testcase'' ''test_a'']"
  by (simp add: example_defs listener_defs builder_defs)

lemma buffers_example_within:
  "stdout_buffer example_within = Some ''hello''" "stderr_buffer example_within = Some []"
  by (simp_all add: example_defs listener_defs builder_defs)

section \<open>The callbacks of one test\<close>

text \<open>
  C9. A skip report with reason \<open>r\<close>, made while a context is open, succeeds; it issues
  \<open>increment_counter('skipped')\<close> and then \<open>append('skipped', None, message=r)\<close>. In the
  builder every open context has its \<open>skipped\<close> counter, and no other, raised by one, and
  the current context gets as its last child a \<open>skipped\<close> leaf with the one attribute
  \<open>message = r\<close> and no CDATA body.
\<close>

theorem addSkip_effect:
  assumes "stack (builder self) = outer @ [tc]"
  shows "addSkip test reason self =
           Ok (self\<lparr>builder := (builder self)
                 \<lparr>stack := map (bump ''skipped'') outer
                            @ [add_child (Leaf ''skipped'' None [(''message'', reason)])
                                 (bump ''skipped'' tc)],
                  journal := journal (builder self)
                            @ [IncrementCounter ''skipped'',
                               Append ''skipped'' None [(''message'', reason)]]\<rparr>\<rparr>)"
  using assms
  by (simp add: addSkip_def with_builder_def on_builder_def increment_counter_top
      append_leaf_top cdata_body_def)

theorem addSkip_effect_witness:
  "journal (builder (state_of (addSkip test_a ''not yet'' example_within))) =
     [BeginContext ''testsuites'' ''TestSuites'', BeginContext ''testsuite'' ''pkg.Foo'',
      BeginContext ''testcase'' ''test_a'', IncrementCounter ''skipped'',
      Append ''skipped'' None [(''message'', ''not yet'')]]
   \<and> map children (stack (builder (state_of (addSkip test_a ''not yet'' example_within)))) =
     [[], [], [Leaf ''skipped'' None [(''message'', ''not yet'')]]]
   \<and> map (\<lambda>c. (counters c ''skipped'', counters c ''tests''))
        (stack (builder (state_of (addSkip test_a ''not yet'' example_within)))) =
     [(1, 0), (1, 0), (1, 0)]"
  using addSkip_effect [OF stack_example_within, of test_a "''not yet''"]
  by (simp add: state_of_def journal_example_within add_child_def bump_def)

text \<open>
  C5. An unexpected success is recorded by the routine for a generic failure, called
  without an exception: it issues \<open>increment_counter('failures')\<close> and then
  \<open>append('failure', None, message='Unexpected success')\<close>, so the leaf has the constant
  message, no \<open>type\<close> attribute and no CDATA body.
\<close>

theorem addUnexpectedSuccess_effect:
  assumes "stack (builder self) = outer @ [tc]"
  shows "addUnexpectedSuccess fmt test self = add_generic_failure fmt test None self
       \<and> addUnexpectedSuccess fmt test self =
           Ok (self\<lparr>builder := (builder self)
                 \<lparr>stack := map (bump ''failures'') outer
                            @ [add_child (Leaf ''failure'' None [(''message'', ''Unexpected success'')])
                                 (bump ''failures'' tc)],
                  journal := journal (builder self)
                            @ [IncrementCounter ''failures'',
                               Append ''failure'' None [(''message'', ''Unexpected success'')]]\<rparr>\<rparr>)"
  using assms
  by (simp add: addUnexpectedSuccess_def add_generic_failure_def append_error_data_def
      with_builder_def on_builder_def increment_counter_top append_leaf_top cdata_body_def Let_def)

theorem addUnexpectedSuccess_effect_witness:
  "journal (builder (state_of (addUnexpectedSuccess no_traceback test_a example_within))) =
     [BeginContext ''testsuites'' ''TestSuites'', BeginContext ''testsuite'' ''pkg.Foo'',
      BeginContext ''testcase'' ''test_a'', IncrementCounter ''failures'',
      Append ''failure'' None [(''message'', ''Unexpected success'')]]
   \<and> map children
        (stack (builder (state_of (addUnexpectedSuccess no_traceback test_a example_within)))) =
     [[], [], [Leaf ''failure'' None [(''message'', ''Unexpected success'')]]]
   \<and> map (\<lambda>c. (counters c ''failures'', counters c ''errors''))
        (stack (builder (state_of (addUnexpectedSuccess no_traceback test_a example_within)))) =
     [(1, 0), (1, 0), (1, 0)]"
proof -
  note recorded =
    addUnexpectedSuccess_effect [OF stack_example_within, of no_traceback test_a, THEN conjunct2]
  show ?thesis
    by (simp add: recorded state_of_def journal_example_within add_child_def bump_def)
qed

text \<open>
  C2. An error or failure whose exception has the empty string as its string
  representation is not recorded: \<open>str(value).splitlines()\<close> is the empty list, taking
  its element 0 raises \<open>IndexError\<close>, and the callback stops after having raised the
  counter, before any leaf is appended. This holds in every state of the listener.
\<close>

theorem empty_message_raises:
  "addError fmt test \<lparr>exctype_name = n, value_str = [], tb_frames = tb\<rparr> self =
     Raised IndexError (on_builder (increment_counter ''errors'') self)
   \<and> addFailure fmt test \<lparr>exctype_name = n, value_str = [], tb_frames = tb\<rparr> self =
     Raised IndexError (on_builder (increment_counter ''failures'') self)"
  by (simp add: addError_def addFailure_def add_generic_failure_def append_error_data_def
      splitlines_empty)

text \<open>
  C6. A test stop with captured output \<open>out_data\<close> and \<open>err_data\<close>, made while the
  testcase context and its parent are open, succeeds. It issues, in this order, the
  \<open>system-out\<close> CDATA leaf exactly if \<open>out_data\<close> is non-empty, the \<open>system-err\<close> CDATA
  leaf exactly if \<open>err_data\<close> is non-empty, \<open>increment_counter('tests')\<close> and
  \<open>end_context()\<close>. In the builder the \<open>tests\<close> counter of every open context is raised
  by one and the testcase, with its leaves, becomes the last child of its parent.
\<close>

theorem stopTest_effect:
  assumes "stack (builder self) = outer @ [parent, tc]"
    and "stdout_buffer self = Some out_data" and "stderr_buffer self = Some err_data"
  shows "\<exists>self'. stopTest test self = Ok self' \<and>
           journal (builder self') =
             journal (builder self)
             @ (if out_data \<noteq> [] then [AppendCdataSection ''system-out'' out_data] else [])
             @ (if err_data \<noteq> [] then [AppendCdataSection ''system-err'' err_data] else [])
             @ [IncrementCounter ''tests'', EndContext] \<and>
           stack (builder self') =
             map (bump ''tests'') outer
             @ [add_child
                  (closed (bump ''tests''
                     (tc\<lparr>children := children tc
                          @ (if out_data \<noteq> [] then [Leaf ''system-out'' (Some out_data) []] else [])
                          @ (if err_data \<noteq> [] then [Leaf ''system-err'' (Some err_data) []] else [])\<rparr>)))
                  (bump ''tests'' parent)]"
proof -
  obtain self1 where s1: "super_stopTest self = Ok self1" "builder self1 = builder self"
    using super_stopTest_Ok [OF assms(2,3)] by blast
  show ?thesis
    unfolding stopTest_def
    using assms(1) s1
    by (simp add: assms(2,3) and_then_Ok with_builder_def on_builder_def
        append_cdata_section_top [where outer = "outer @ [parent]"]
        increment_counter_top [where outer = "outer @ [parent]"]
        end_context_nested add_child_def bump_def)
qed

theorem stopTest_effect_witness:
  "\<exists>self'. stopTest test_a example_within = Ok self' \<and>
      journal (builder self') =
        [BeginContext ''testsuites'' ''TestSuites'', BeginContext ''testsuite'' ''pkg.Foo'',
         BeginContext ''testcase'' ''test_a'', AppendCdataSection ''system-out'' ''hello'',
         IncrementCounter ''tests'', EndContext] \<and>
      map (\<lambda>c. (tag c, counters c ''tests'')) (stack (builder self')) =
        [(''testsuites'', 1), (''testsuite'', 1)]"
proof -
  have "stack (builder example_within) =
          [\<lparr>tag = ''testsuites'', name = ''TestSuites'', counters = (\<lambda>_. 0), children = []\<rparr>]
          @ [\<lparr>tag = ''testsuite'', name = ''pkg.Foo'', counters = (\<lambda>_. 0), children = []\<rparr>,
             \<lparr>tag = ''testcase'', name = ''test_a'', counters = (\<lambda>_. 0), children = []\<rparr>]"
    by (simp add: stack_example_within)
  from stopTest_effect [OF this buffers_example_within, of test_a]
  obtain self' where "stopTest test_a example_within = Ok self'"
    and "journal (builder self') =
           journal (builder example_within)
           @ [AppendCdataSection ''system-out'' ''hello'', IncrementCounter ''tests'', EndContext]"
    and "map (\<lambda>c. (tag c, counters c ''tests'')) (stack (builder self')) =
           [(''testsuites'', 1), (''testsuite'', 1)]"
    by (auto simp add: add_child_def bump_def)
  then show ?thesis
    by (simp add: journal_example_within)
qed

section \<open>Whole runs\<close>

lemma spec_description_eq: "get_description t = spec_description t"
  by (simp add: get_description_def spec_description_def split: option.splits)

lemma startTest_between:
  assumes "between_tests self"
  shows "\<exists>self1. startTest t self = Ok self1 \<and> within_test self1
           \<and> journal (builder self1) = journal (builder self) @ spec_startTest (open_suite self) t
           \<and> open_suite self1 = Some (strclass t)
           \<and> stdout_buffer self1 = Some [] \<and> stderr_buffer self1 = Some [] \<and> redirected self1"
proof -
  from assms have clear: "captures_clear self"
    by (simp add: between_tests_def)
  from assms consider
      (root) r where "stack (builder self) = [r]" "tag r = ''testsuites''" "last_suite self = None"
    | (suite) r s where "stack (builder self) = [r, s]" "tag r = ''testsuites''"
        "tag s = ''testsuite''" "last_suite self = Some (name s)" "name s \<noteq> []"
    by (auto simp add: between_tests_def split: list.splits)
  then show ?thesis
  proof cases
    case root
    with clear show ?thesis
      by (auto simp add: captures_clear_def within_test_def open_suite_def spec_startTest_def
          spec_description_eq listener_defs builder_defs)
  next
    case suite
    with clear show ?thesis
      by (auto simp add: captures_clear_def within_test_def open_suite_def spec_startTest_def
          spec_description_eq listener_defs builder_defs Let_def)
  qed
qed

lemma within_test_stack:
  assumes "within_test self"
  obtains r s c where "stack (builder self) = [r, s] @ [c]" "tag r = ''testsuites''"
    "tag s = ''testsuite''" "last_suite self = Some (name s)" "name s \<noteq> []"
  using assms by (auto simp add: within_test_def split: list.splits)

lemma record_leaf_within:
  assumes "within_test self"
  shows "\<exists>self'. with_builder (append_leaf t cdata attrs) (on_builder (increment_counter n) self)
                 = Ok self'
           \<and> within_test self'
           \<and> journal (builder self') =
               journal (builder self) @ [IncrementCounter n, Append t cdata attrs]
           \<and> open_suite self' = open_suite self
           \<and> stdout_buffer self' = stdout_buffer self \<and> stderr_buffer self' = stderr_buffer self"
proof -
  from assms obtain r s c where st: "stack (builder self) = [r, s] @ [c]"
    and "tag r = ''testsuites''" "tag s = ''testsuite''"
    and "last_suite self = Some (name s)" "name s \<noteq> []"
    by (rule within_test_stack)
  with assms show ?thesis
    by (simp add: within_test_def open_suite_def with_builder_def on_builder_def
        increment_counter_top [OF st] append_leaf_top [where outer = "map (bump n) [r, s]"]
        bump_def add_child_def)
qed

lemma report_within:
  assumes "within_test self" and "reportable ev"
  shows "\<exists>self' cs. report fmt t ev self = Ok self' \<and> within_test self'
           \<and> journal (builder self') = journal (builder self) @ cs \<and> list_all is_report_call cs
           \<and> open_suite self' = open_suite self
           \<and> stdout_buffer self' = stdout_buffer self \<and> stderr_buffer self' = stderr_buffer self"
proof (cases ev)
  case (Skip reason)
  from record_leaf_within [OF assms(1), of "''skipped''" None "[(''message'', reason)]" "''skipped''"]
  show ?thesis
    by (auto simp add: Skip report_def addSkip_def is_report_call_def)
next
  case (Error err)
  with assms(2) obtain l ls where "splitlines (value_str err) = l # ls"
    using splitlines_nonempty [of "value_str err"]
    by (cases "splitlines (value_str err)") (auto simp add: reportable_def)
  with record_leaf_within [OF assms(1), of "''error''"
      "Some (fmt (on_builder (increment_counter ''errors'') self) err t)"
      "[(''message'', l), (''type'', exctype_name err)]" "''errors''"]
  show ?thesis
    by (auto simp add: Error report_def addError_def append_error_data_def Let_def
        is_report_call_def)
next
  case (Failure err)
  with assms(2) obtain l ls where "splitlines (value_str err) = l # ls"
    using splitlines_nonempty [of "value_str err"]
    by (cases "splitlines (value_str err)") (auto simp add: reportable_def)
  with record_leaf_within [OF assms(1), of "''failure''"
      "Some (fmt (on_builder (increment_counter ''failures'') self) err t)"
      "[(''message'', l), (''type'', exctype_name err)]" "''failures''"]
  show ?thesis
    by (auto simp add: Failure report_def addFailure_def add_generic_failure_def
        append_error_data_def Let_def is_report_call_def)
next
  case UnexpectedSuccess
  from record_leaf_within [OF assms(1), of "''failure''" None
      "[(''message'', ''Unexpected success'')]" "''failures''"]
  show ?thesis
    by (auto simp add: UnexpectedSuccess report_def addUnexpectedSuccess_def
        add_generic_failure_def append_error_data_def Let_def is_report_call_def)
next
  case Success
  with assms(1) show ?thesis
    by (simp add: report_def)
qed

lemma report_all_within:
  assumes "within_test self" and "list_all reportable evs"
  shows "\<exists>self' cs. report_all fmt t evs self = Ok self' \<and> within_test self'
           \<and> journal (builder self') = journal (builder self) @ cs \<and> list_all is_report_call cs
           \<and> open_suite self' = open_suite self
           \<and> stdout_buffer self' = stdout_buffer self \<and> stderr_buffer self' = stderr_buffer self"
  using assms
proof (induction evs arbitrary: self)
  case Nil
  then show ?case by simp
next
  case (Cons ev evs)
  from Cons.prems obtain self1 cs1 where
    one: "report fmt t ev self = Ok self1" "within_test self1"
      "journal (builder self1) = journal (builder self) @ cs1" "list_all is_report_call cs1"
      "open_suite self1 = open_suite self"
      "stdout_buffer self1 = stdout_buffer self" "stderr_buffer self1 = stderr_buffer self"
    using report_within [of self ev fmt t] by auto
  from Cons.IH [OF one(2)] Cons.prems(2) obtain self2 cs2 where
    rest: "report_all fmt t evs self1 = Ok self2" "within_test self2"
      "journal (builder self2) = journal (builder self1) @ cs2" "list_all is_report_call cs2"
      "open_suite self2 = open_suite self1"
      "stdout_buffer self2 = stdout_buffer self1" "stderr_buffer self2 = stderr_buffer self1"
    by auto
  show ?case
  proof (intro exI conjI)
    show "report_all fmt t (ev # evs) self = Ok self2"
      by (simp add: one(1) rest(1) and_then_Ok)
    show "journal (builder self2) = journal (builder self) @ (cs1 @ cs2)"
      by (simp add: one(3) rest(3))
    show "list_all is_report_call (cs1 @ cs2)"
      by (simp add: one(4) rest(4))
  qed (simp_all add: one rest)
qed

lemma test_writes_within:
  assumes "within_test self" and "redirected self"
    and "stdout_buffer self = Some []" and "stderr_buffer self = Some []"
  shows "within_test (test_writes out err self)
       \<and> journal (builder (test_writes out err self)) = journal (builder self)
       \<and> open_suite (test_writes out err self) = open_suite self
       \<and> stdout_buffer (test_writes out err self) = Some out
       \<and> stderr_buffer (test_writes out err self) = Some err"
  using assms by (auto simp add: test_writes_def within_test_def open_suite_def split: list.splits)

lemma stopTest_within:
  assumes "within_test self"
    and "stdout_buffer self = Some out" and "stderr_buffer self = Some err"
  shows "\<exists>self'. stopTest t self = Ok self' \<and> between_tests self'
           \<and> journal (builder self') =
               journal (builder self) @ spec_flush out err @ [IncrementCounter ''tests'', EndContext]
           \<and> open_suite self' = open_suite self"
proof -
  from assms(1) obtain r s c where st: "stack (builder self) = [r, s] @ [c]"
    and tags: "tag r = ''testsuites''" "tag s = ''testsuite''"
    and key: "last_suite self = Some (name s)" "name s \<noteq> []"
    by (rule within_test_stack)
  from assms(1) have buf: "buffer self"
    by (simp add: within_test_def)
  obtain self1 where s1: "super_stopTest self = Ok self1" "builder self1 = builder self"
    "last_suite self1 = last_suite self" "buffer self1"
    "stdout_buffer self1 = Some []" "stderr_buffer self1 = Some []"
    using super_stopTest_Ok [OF assms(2,3)] buf by auto
  show ?thesis
    unfolding stopTest_def
    using st tags key s1
    by (simp add: assms(2,3) and_then_Ok with_builder_def on_builder_def spec_flush_def
        append_cdata_section_top [where outer = "[r, s]"]
        increment_counter_top [where outer = "[r, s]"]
        end_context_nested [where outer = "[bump ''tests'' r]"]
        add_child_def bump_def between_tests_def captures_clear_def open_suite_def)
qed

lemma run_test_between:
  assumes "between_tests self" and "list_all reportable (reported x)"
  shows "\<exists>self' cs. run_test fmt x self = Ok self' \<and> between_tests self'
           \<and> journal (builder self') =
               journal (builder self) @ spec_startTest (open_suite self) (tested x) @ cs
               @ spec_flush (printed_out x) (printed_err x) @ [IncrementCounter ''tests'', EndContext]
           \<and> list_all is_report_call cs
           \<and> open_suite self' = Some (strclass (tested x))"
proof -
  obtain self1 where
    start: "startTest (tested x) self = Ok self1" "within_test self1"
      "journal (builder self1) = journal (builder self) @ spec_startTest (open_suite self) (tested x)"
      "open_suite self1 = Some (strclass (tested x))"
      "stdout_buffer self1 = Some []" "stderr_buffer self1 = Some []" "redirected self1"
    using startTest_between [OF assms(1), of "tested x"] by auto
  let ?self2 = "test_writes (printed_out x) (printed_err x) self1"
  note wr = test_writes_within [OF start(2) start(7) start(5) start(6),
      of "printed_out x" "printed_err x"]
  obtain self3 cs where
    evs: "report_all fmt (tested x) (reported x) ?self2 = Ok self3" "within_test self3"
      "journal (builder self3) = journal (builder ?self2) @ cs" "list_all is_report_call cs"
      "open_suite self3 = open_suite ?self2"
      "stdout_buffer self3 = stdout_buffer ?self2" "stderr_buffer self3 = stderr_buffer ?self2"
    using report_all_within [of ?self2 "reported x" fmt "tested x"] wr assms(2) by auto
  have out: "stdout_buffer self3 = Some (printed_out x)"
    and err: "stderr_buffer self3 = Some (printed_err x)"
    using evs(6,7) wr by simp_all
  obtain self4 where
    stop: "stopTest (tested x) self3 = Ok self4" "between_tests self4"
      "journal (builder self4) =
         journal (builder self3) @ spec_flush (printed_out x) (printed_err x)
         @ [IncrementCounter ''tests'', EndContext]"
      "open_suite self4 = open_suite self3"
    using stopTest_within [OF evs(2) out err, of "tested x"] by auto
  show ?thesis
  proof (intro exI conjI)
    show "run_test fmt x self = Ok self4"
      by (simp add: run_test_def start(1) evs(1) stop(1) and_then_Ok)
    show "between_tests self4" by (rule stop(2))
    show "journal (builder self4) =
            journal (builder self) @ spec_startTest (open_suite self) (tested x) @ cs
            @ spec_flush (printed_out x) (printed_err x) @ [IncrementCounter ''tests'', EndContext]"
      using stop(3) evs(3) wr start(3) by simp
    show "list_all is_report_call cs" by (rule evs(4))
    show "open_suite self4 = Some (strclass (tested x))"
      using stop(4) evs(5) wr start(4) by simp
  qed
qed

lemma context_calls_report: "list_all is_report_call cs \<Longrightarrow> filter is_context_call cs = []"
  by (induction cs) (auto simp add: is_report_call_def is_context_call_def split: bcall.splits)

lemma capture_calls_report: "list_all is_report_call cs \<Longrightarrow> filter is_capture_call cs = []"
  by (induction cs) (auto simp add: is_report_call_def is_capture_call_def split: bcall.splits)

lemma context_calls_start: "filter is_context_call (spec_startTest cur t) = spec_startTest cur t"
  by (simp add: spec_startTest_def is_context_call_def split: option.splits)

lemma capture_calls_start:
  "filter is_capture_call (spec_startTest cur t) = [BeginContext ''testcase'' (spec_description t)]"
  by (simp add: spec_startTest_def is_capture_call_def split: option.splits)

lemma context_calls_flush: "filter is_context_call (spec_flush out err) = []"
  by (simp add: spec_flush_def is_context_call_def)

lemma capture_calls_flush: "filter is_capture_call (spec_flush out err) = spec_flush out err"
  by (simp add: spec_flush_def is_capture_call_def)

lemma run_tests_between:
  assumes "between_tests self" and "list_all (\<lambda>x. list_all reportable (reported x)) xs"
  shows "\<exists>self'. run_tests fmt xs self = Ok self' \<and> between_tests self'
           \<and> filter is_context_call (journal (builder self')) =
               filter is_context_call (journal (builder self))
               @ spec_contexts (open_suite self) (map tested xs)
           \<and> filter is_capture_call (journal (builder self')) =
               filter is_capture_call (journal (builder self)) @ concat (map spec_captures xs)
           \<and> open_suite self' =
               (if xs = [] then open_suite self else Some (strclass (tested (last xs))))"
  using assms
proof (induction xs arbitrary: self)
  case Nil
  then show ?case by simp
next
  case (Cons x xs)
  from Cons.prems obtain self1 cs where
    one: "run_test fmt x self = Ok self1" "between_tests self1"
      "journal (builder self1) =
         journal (builder self) @ spec_startTest (open_suite self) (tested x) @ cs
         @ spec_flush (printed_out x) (printed_err x) @ [IncrementCounter ''tests'', EndContext]"
      "list_all is_report_call cs"
      "open_suite self1 = Some (strclass (tested x))"
    using run_test_between [of self x fmt] by auto
  from Cons.IH [OF one(2)] Cons.prems(2) obtain self2 where
    rest: "run_tests fmt xs self1 = Ok self2" "between_tests self2"
      "filter is_context_call (journal (builder self2)) =
         filter is_context_call (journal (builder self1))
         @ spec_contexts (open_suite self1) (map tested xs)"
      "filter is_capture_call (journal (builder self2)) =
         filter is_capture_call (journal (builder self1)) @ concat (map spec_captures xs)"
      "open_suite self2 =
         (if xs = [] then open_suite self1 else Some (strclass (tested (last xs))))"
    by auto
  show ?case
  proof (intro exI conjI)
    show "run_tests fmt (x # xs) self = Ok self2"
      by (simp add: one(1) rest(1) and_then_Ok)
    show "between_tests self2" by (rule rest(2))
    show "filter is_context_call (journal (builder self2)) =
            filter is_context_call (journal (builder self))
            @ spec_contexts (open_suite self) (map tested (x # xs))"
      by (simp add: rest(3) one(3) one(5) context_calls_start context_calls_flush
          context_calls_report [OF one(4)] is_context_call_def)
    show "filter is_capture_call (journal (builder self2)) =
            filter is_capture_call (journal (builder self)) @ concat (map spec_captures (x # xs))"
      by (simp add: rest(4) one(3) capture_calls_start capture_calls_flush
          capture_calls_report [OF one(4)] is_capture_call_def spec_captures_def)
    show "open_suite self2 =
            (if x # xs = [] then open_suite self else Some (strclass (tested (last (x # xs)))))"
      by (simp add: rest(5) one(5))
  qed
qed

lemma between_tests_example_started: "between_tests example_started"
  by (simp add: between_tests_def captures_clear_def example_defs listener_defs builder_defs)

lemma reportable_example_run: "list_all (\<lambda>x. list_all reportable (reported x)) example_run"
  by (simp add: example_run_def reportable_def)

lemma journal_example_started:
  "journal (builder example_started) = [BeginContext ''testsuites'' ''TestSuites'']"
  by (simp add: example_defs listener_defs builder_defs)

lemma open_suite_example_started: "open_suite example_started = None"
  by (simp add: open_suite_def example_defs listener_defs builder_defs)

text \<open>
  C3. Take any run of tests from a state between two tests, in which every reported
  exception has a message. The run succeeds, and the context calls it issues are those
  the specification prescribes: for each test, a new \<open>testsuite\<close> context exactly if no
  suite is open or the key of the open suite differs from the module-qualified class
  name of the test, after closing the open suite if there is one; then a \<open>testcase\<close>
  context named by the first line of the documentation string or, if there is none (or
  it is empty), by the method name; then the close of the testcase at test stop. Two
  consecutive tests of one class thus share one testsuite context.
\<close>

theorem suites_follow_classes:
  assumes "between_tests self" and "list_all (\<lambda>x. list_all reportable (reported x)) xs"
  shows "\<exists>self'. run_tests fmt xs self = Ok self'
           \<and> filter is_context_call (journal (builder self')) =
               filter is_context_call (journal (builder self))
               @ spec_contexts (open_suite self) (map tested xs)"
  using run_tests_between [OF assms, of fmt] by blast

theorem suites_follow_classes_witness:
  "filter is_context_call
     (journal (builder (state_of (run_tests no_traceback example_run example_started)))) =
     [BeginContext ''testsuites'' ''TestSuites'',
      BeginContext ''testsuite'' ''pkg.Foo'',
      BeginContext ''testcase'' ''test_a'', EndContext,
      BeginContext ''testcase'' ''b works'', EndContext,
      EndContext,
      BeginContext ''testsuite'' ''pkg.Bar'',
      BeginContext ''testcase'' ''test_c'', EndContext]"
proof -
  from suites_follow_classes [OF between_tests_example_started reportable_example_run, of no_traceback]
  obtain self' where "run_tests no_traceback example_run example_started = Ok self'"
    and "filter is_context_call (journal (builder self')) =
           filter is_context_call (journal (builder example_started))
           @ spec_contexts (open_suite example_started) (map tested example_run)"
    by blast
  then show ?thesis
    by (simp add: state_of_def journal_example_started open_suite_example_started
        is_context_call_def example_run_def spec_startTest_def spec_description_def strclass_def
        test_a_def test_b_def test_c_def)
qed

lemma report_file_name:
  "py_format ''{0}{1}TESTS-TestSuites-{3}.xml'' [d, sep, x, sfx] =
     Inr (d @ sep @ ''TESTS-TestSuites-'' @ sfx @ ''.xml'')"
  by (simp add: py_format_def resolve_def is_digit_def index_of_def digit_value_def)

lemma scan_text: "brace_free pre \<Longrightarrow> scan Text num args out (pre @ rest) = scan Text num args (out @ pre) rest"
  by (induction pre arbitrary: out) (auto simp add: brace_free_def)

lemma scan_text_end: "brace_free post \<Longrightarrow> scan Text num args out post = Inr (out @ post)"
  using scan_text [of post num args out "[]"] by simp

lemma format_placeholder:
  assumes "brace_free pre" and "brace_free post"
  shows "py_format (pre @ ''{0}'' @ post) [ts] = Inr (pre @ ts @ post)"
  using assms
  by (simp add: py_format_def scan_text scan_text_end resolve_def is_digit_def index_of_def
      digit_value_def)

lemma timestamp_eq:
  "timestamp now =
     decimal (tm_year now) @ two_digits (tm_mon now) @ two_digits (tm_mday now) @ ''T''
     @ two_digits (tm_hour now) @ two_digits (tm_min now) @ two_digits (tm_sec now)"
  by (simp add: timestamp_def conversion_def)

lemma is_digit_digit: "is_digit (digit d)"
  unfolding is_digit_def digit_def by (rule nth_mem) simp

lemma digits_decimal: "list_all is_digit (decimal n)"
proof (induction n rule: decimal.induct)
  case (1 n)
  show ?case
  proof (cases "n < 10")
    case True
    then show ?thesis by (subst decimal.simps) (simp add: is_digit_digit)
  next
    case False
    with "1" show ?thesis by (subst decimal.simps) (simp add: is_digit_digit)
  qed
qed

lemma length_decimal_1: "n < 10 \<Longrightarrow> length (decimal n) = 1"
  by (subst decimal.simps) simp

lemma length_decimal_2: "10 \<le> n \<Longrightarrow> n < 100 \<Longrightarrow> length (decimal n) = 2"
  by (subst decimal.simps) (simp add: length_decimal_1)

lemma length_decimal_3:
  assumes "100 \<le> n" and "n < 1000"
  shows "length (decimal n) = 3"
proof -
  from assms have "10 \<le> n div 10" and "n div 10 < 100" by arith+
  then have "length (decimal (n div 10)) = 2" by (rule length_decimal_2)
  with assms show ?thesis by (subst decimal.simps) simp
qed

lemma length_decimal_4:
  assumes "1000 \<le> n" and "n < 10000"
  shows "length (decimal n) = 4"
proof -
  from assms have "100 \<le> n div 10" and "n div 10 < 1000" by arith+
  then have "length (decimal (n div 10)) = 3" by (rule length_decimal_3)
  with assms show ?thesis by (subst decimal.simps) simp
qed

lemma timestamp_format:
  assumes "1000 \<le> tm_year now" and "tm_year now < 10000"
  shows "is_timestamp (timestamp now)"
  using length_decimal_4 [OF assms] digits_decimal [of "tm_year now"]
  by (simp add: is_timestamp_def timestamp_eq two_digits_def is_digit_digit nth_append)

lemma init_fields:
  assumes "init stream descriptions verbosity dir suffix now = Inr self"
  shows "builder self = XMLContextBuilder" and "last_suite self = None" and "out_dir self = dir"
    and "buffer self" and "stdout_buffer self = None" and "stderr_buffer self = None"
  using assms by (auto simp add: init_def Let_def split: if_splits sum.splits)


lemma init_example: "init () () () (Path ''reports'') None example_time = Inr example_listener"
  by (simp add: init_def truthy_def example_listener_def example_time_def timestamp_eq
      two_digits_def digit_def decimal.simps)



section \<open>The end of the run\<close>

lemma journal_close_top: "journal (close_top b) = journal b"
  by (simp add: close_top_def Let_def)

lemma finish_journal: "journal (snd (finish render b)) = journal b @ [Finish]"
  by (simp add: finish_def Let_def received_def journal_close_top
      split: list.splits option.splits)

lemma finish_root:
  "stack b = [root] \<Longrightarrow>
   finish render b =
     (Inr (render (closed root)),
      b\<lparr>stack := [], document := Some (closed root), journal := journal b @ [Finish]\<rparr>)"
  by (simp add: finish_def Let_def received_def close_top_def)

lemma report_file:
  "py_format ''{0}{1}TESTS-TestSuites-{3}.xml'' [d, sep, x, sfx] = Inr (report_path d sep sfx)"
  by (simp add: report_file_name report_path_def)

lemma ensure_directory:
  assumes "d \<noteq> []" and "d \<in> existing w \<or> refuses w (MakeDirs d) = None"
  shows "in_world (\<lambda>w. if \<not> path_exists d w then makedirs d w else Ok w) (w, self) =
           Ok (w\<lparr>existing := insert d (existing w),
                 io_calls := io_calls w @ (if d \<in> existing w then [] else [MakeDirs d])\<rparr>, self)"
  using assms
  by (auto simp add: in_world_def path_exists_def makedirs_def attempt_def insert_absorb)

lemma open_report:
  assumes "out_dir self = Path d" and "can_open w (Path d) (out_suffix self)"
  shows "and_then
           (in_world (\<lambda>w. if \<not> path_exists d w then makedirs d w else Ok w) (w, self))
           (in_world (open_w (report_path d (os_sep w) (out_suffix self)))) =
         Ok (w\<lparr>existing := insert (report_path d (os_sep w) (out_suffix self))
                             (insert d (existing w)),
               files := (files w)(report_path d (os_sep w) (out_suffix self) \<mapsto> []),
               io_calls := io_calls w
                 @ (if d \<in> existing w then [] else [MakeDirs d])
                 @ [OpenForWriting (report_path d (os_sep w) (out_suffix self))]\<rparr>, self)"
proof -
  from assms(2) have d: "d \<noteq> []" "d \<in> existing w \<or> refuses w (MakeDirs d) = None"
    and op: "refuses w (OpenForWriting (report_path d (os_sep w) (out_suffix self))) = None"
    by (simp_all add: can_open_def)
  show ?thesis
    unfolding ensure_directory [OF d] and_then_Ok
    by (simp add: in_world_def open_w_def attempt_def op)
qed

lemma generate_report_path:
  assumes "out_dir self = Path d" and "can_open w (Path d) (out_suffix self)"
    and "fin (builder self) = (Inr doc, b)" and "can_write w (Path d) (out_suffix self) doc"
  shows "generate_report fin (w, self) =
           Ok (w\<lparr>existing := insert (report_path d (os_sep w) (out_suffix self))
                               (insert d (existing w)),
                 files := (files w)(report_path d (os_sep w) (out_suffix self) \<mapsto> doc),
                 io_calls := io_calls w
                   @ (if d \<in> existing w then [] else [MakeDirs d])
                   @ [OpenForWriting (report_path d (os_sep w) (out_suffix self)),
                      WriteFile (report_path d (os_sep w) (out_suffix self)) doc]\<rparr>,
               self\<lparr>builder := b\<rparr>)"
proof -
  from assms(4) have wr: "refuses w (WriteFile (report_path d (os_sep w) (out_suffix self)) doc) = None"
    by (simp add: can_write_def)
  have "generate_report fin (w, self) =
          and_then
            (and_then
               (in_world (\<lambda>w. if \<not> path_exists d w then makedirs d w else Ok w) (w, self))
               (in_world (open_w (report_path d (os_sep w) (out_suffix self)))))
            (\<lambda>ws. in_world (write_file (report_path d (os_sep w) (out_suffix self)) doc)
                    (fst ws, self\<lparr>builder := b\<rparr>))"
    using assms(1,3)
    by (simp add: generate_report_def Let_def report_file and_then_def split: result.splits)
  then show ?thesis
    unfolding open_report [OF assms(1,2)] and_then_Ok
    by (simp add: in_world_def write_file_def attempt_def wr)
qed

lemma generate_report_path_finish_raises:
  assumes "out_dir self = Path d" and "can_open w (Path d) (out_suffix self)"
    and "fin (builder self) = (Inl e, b)"
  shows "generate_report fin (w, self) =
           Raised e
             (w\<lparr>existing := insert (report_path d (os_sep w) (out_suffix self))
                               (insert d (existing w)),
                 files := (files w)(report_path d (os_sep w) (out_suffix self) \<mapsto> []),
                 io_calls := io_calls w
                   @ (if d \<in> existing w then [] else [MakeDirs d])
                   @ [OpenForWriting (report_path d (os_sep w) (out_suffix self))]\<rparr>,
              self\<lparr>builder := b\<rparr>)"
proof -
  have "generate_report fin (w, self) =
          and_then
            (and_then
               (in_world (\<lambda>w. if \<not> path_exists d w then makedirs d w else Ok w) (w, self))
               (in_world (open_w (report_path d (os_sep w) (out_suffix self)))))
            (\<lambda>ws. Raised e (fst ws, self\<lparr>builder := b\<rparr>))"
    using assms(1,3)
    by (simp add: generate_report_def Let_def report_file and_then_def split: result.splits)
  then show ?thesis
    by (simp add: open_report [OF assms(1,2)] and_then_Ok)
qed

lemma generate_report_stream:
  assumes "out_dir self = Stream h" and "fin (builder self) = (Inr doc, b)"
    and "can_write w (Stream h) (out_suffix self) doc"
  shows "generate_report fin (w, self) =
           Ok (w\<lparr>streams := (streams w)(h := streams w h @ doc),
                 io_calls := io_calls w @ [WriteStream h doc]\<rparr>,
               self\<lparr>builder := b\<rparr>)"
  using assms
  by (simp add: generate_report_def Let_def in_world_def write_stream_def attempt_def can_write_def)

lemma generate_report_stream_finish_raises:
  assumes "out_dir self = Stream h" and "fin (builder self) = (Inl e, b)"
  shows "generate_report fin (w, self) = Raised e (w, self\<lparr>builder := b\<rparr>)"
  using assms by (simp add: generate_report_def Let_def)

lemma generate_report_empty_path:
  assumes "out_dir self = Path []"
  shows "generate_report fin (w, self) = Raised FileNotFoundError (w, self)"
  using assms
  by (simp add: generate_report_def Let_def report_file in_world_def and_then_def
      path_exists_def makedirs_def)

lemma generate_report_unopened:
  assumes "\<not> can_open w (out_dir self) (out_suffix self)"
  shows "\<exists>e w'. generate_report fin (w, self) = Raised e (w', self)"
proof (cases "out_dir self")
  case (Path d)
  with assms show ?thesis
    by (auto simp add: can_open_def generate_report_def Let_def report_file in_world_def
        and_then_def path_exists_def makedirs_def open_w_def attempt_def
        split: option.splits)
next
  case (Stream h)
  with assms show ?thesis by (simp add: can_open_def)
qed

lemma target_with_builder: "report_target (state_of (with_builder f s)) = report_target s"
  by (cases "f (builder s)") (simp_all add: with_builder_def state_of_def report_target_def)

lemma target_on_builder: "report_target (on_builder f s) = report_target s"
  by (simp add: on_builder_def report_target_def)

lemma target_and_then:
  assumes "report_target (state_of r) = t"
    and "\<And>s. report_target (state_of (f s)) = report_target s"
  shows "report_target (state_of (and_then r f)) = t"
  using assms by (cases r) (simp_all add: and_then_def state_of_def)

lemma target_Ok: "report_target (state_of (Ok s)) = report_target s"
  by (simp add: state_of_def)

lemma target_Raised: "report_target (state_of (Raised e s)) = report_target s"
  by (simp add: state_of_def)

lemma target_super_startTest: "report_target (super_startTest s) = report_target s"
  by (simp add: super_startTest_def report_target_def)

lemma target_super_stopTest: "report_target (state_of (super_stopTest s)) = report_target s"
  by (simp add: super_stopTest_def report_target_def state_of_def split: option.splits)

lemma target_test_writes: "report_target (test_writes out err s) = report_target s"
  by (simp add: test_writes_def report_target_def)

lemma target_start_new_suite: "report_target (state_of (start_new_suite t s)) = report_target s"
  unfolding start_new_suite_def
  by (rule target_and_then)
    (simp_all add: target_with_builder target_Ok target_on_builder Let_def,
      simp add: report_target_def)

lemma target_startTest: "report_target (state_of (startTest t s)) = report_target s"
  unfolding startTest_def Let_def
  by (rule target_and_then)
    (simp_all add: target_start_new_suite target_Ok target_on_builder target_super_startTest)

lemma target_stopTest: "report_target (state_of (stopTest t s)) = report_target s"
proof (cases "stdout_buffer s")
  case None
  then show ?thesis by (simp add: stopTest_def target_Raised)
next
  case out: (Some out_data)
  show ?thesis
  proof (cases "stderr_buffer s")
    case None
    with out show ?thesis by (simp add: stopTest_def target_Raised)
  next
    case (Some err_data)
    have "report_target (state_of
            (and_then (super_stopTest s) (\<lambda>self.
             and_then (if out_data \<noteq> []
                       then with_builder (append_cdata_section ''system-out'' out_data) self
                       else Ok self) (\<lambda>self.
             and_then (if err_data \<noteq> []
                       then with_builder (append_cdata_section ''system-err'' err_data) self
                       else Ok self) (\<lambda>self.
             with_builder end_context (on_builder (increment_counter ''tests'') self)))))) =
          report_target s"
      by (intro target_and_then)
        (simp_all add: target_super_stopTest target_with_builder target_Ok target_on_builder)
    with out Some show ?thesis by (simp add: stopTest_def)
  qed
qed

lemma target_append_error_data:
  "report_target (state_of (append_error_data fmt t ty err s)) = report_target s"
  by (simp add: append_error_data_def Let_def target_with_builder target_Raised
      split: option.splits list.splits)

lemma target_report: "report_target (state_of (report fmt t ev s)) = report_target s"
  by (cases ev)
    (simp_all add: report_def addSkip_def addError_def addFailure_def addUnexpectedSuccess_def
      add_generic_failure_def target_with_builder target_append_error_data target_on_builder
      target_Ok)

lemma target_report_all: "report_target (state_of (report_all fmt t evs s)) = report_target s"
proof (induction evs arbitrary: s)
  case Nil
  show ?case by (simp add: target_Ok)
next
  case (Cons ev evs)
  show ?case
    unfolding report_all.simps
    by (rule target_and_then) (simp_all add: target_report Cons.IH)
qed

lemma target_run_test: "report_target (state_of (run_test fmt x s)) = report_target s"
  unfolding run_test_def
proof (rule target_and_then)
  show "report_target (state_of (startTest (tested x) s)) = report_target s"
    by (rule target_startTest)
next
  fix s1
  show "report_target (state_of
          (and_then (report_all fmt (tested x) (reported x)
                       (test_writes (printed_out x) (printed_err x) s1))
             (stopTest (tested x)))) = report_target s1"
    by (rule target_and_then) (simp_all add: target_report_all target_test_writes target_stopTest)
qed

lemma target_run_tests: "report_target (state_of (run_tests fmt xs s)) = report_target s"
proof (induction xs arbitrary: s)
  case Nil
  show ?case by (simp add: target_Ok)
next
  case (Cons x xs)
  show ?case
    unfolding run_tests.simps
    by (rule target_and_then) (simp_all add: target_run_test Cons.IH)
qed

lemma run_tests_target:
  assumes "run_tests fmt xs s = Ok s'"
  shows "out_dir s' = out_dir s" and "out_suffix s' = out_suffix s"
  using target_run_tests [of fmt xs s] assms
  by (simp_all add: state_of_def report_target_def)

lemma read_decimal_snoc: "read_decimal (s @ [c]) = 10 * read_decimal s + (of_char c - 48)"
  by (simp add: read_decimal_def)

lemma value_of_digit: "of_char (digit n) - 48 = n mod 10"
proof -
  have "k < 10 \<Longrightarrow> of_char (''0123456789'' ! k) - 48 = k" for k :: nat
    by (auto simp add: numeral_eq_Suc less_Suc_eq)
  from this [of "n mod 10"] show ?thesis
    by (simp add: digit_def)
qed

lemma read_decimal_decimal: "read_decimal (decimal n) = n"
proof (induction n rule: decimal.induct)
  case (1 n)
  show ?case
  proof (cases "n < 10")
    case True
    then show ?thesis
      by (subst decimal.simps) (simp add: read_decimal_def value_of_digit)
  next
    case False
    with "1" show ?thesis
      by (subst decimal.simps) (simp add: read_decimal_snoc value_of_digit)
  qed
qed

lemma read_decimal_two_digits: "n < 100 \<Longrightarrow> read_decimal (two_digits n) = n"
proof -
  assume "n < 100"
  then have "n div 10 mod 10 = n div 10" by simp
  then show ?thesis
    by (simp add: two_digits_def read_decimal_def value_of_digit)
qed

lemma timestamp_shows_time:
  assumes "calendar_time now"
  shows "shows_time (timestamp now) now"
proof -
  from assms have yr: "1000 \<le> tm_year now" "tm_year now < 10000"
    and small: "tm_mon now < 100" "tm_mday now < 100" "tm_hour now < 100"
      "tm_min now < 100" "tm_sec now < 100"
    by (simp_all add: calendar_time_def)
  have len: "length (decimal (tm_year now)) = 4"
    by (rule length_decimal_4 [OF yr])
  have len2: "length (two_digits n) = 2" for n
    by (simp add: two_digits_def)
  have "is_timestamp (timestamp now)"
    by (rule timestamp_format [OF yr])
  moreover have "read_decimal (take 4 (timestamp now)) = tm_year now"
    by (simp add: timestamp_eq len read_decimal_decimal)
  moreover have "read_decimal (take 2 (drop 4 (timestamp now))) = tm_mon now"
    by (simp add: timestamp_eq len len2 read_decimal_two_digits [OF small(1)])
  moreover have "read_decimal (take 2 (drop 6 (timestamp now))) = tm_mday now"
    by (simp add: timestamp_eq len len2 read_decimal_two_digits [OF small(2)])
  moreover have "read_decimal (take 2 (drop 9 (timestamp now))) = tm_hour now"
    by (simp add: timestamp_eq len len2 read_decimal_two_digits [OF small(3)])
  moreover have "read_decimal (take 2 (drop 11 (timestamp now))) = tm_min now"
    by (simp add: timestamp_eq len len2 read_decimal_two_digits [OF small(4)])
  moreover have "read_decimal (take 2 (drop 13 (timestamp now))) = tm_sec now"
    by (simp add: timestamp_eq len len2 read_decimal_two_digits [OF small(5)])
  ultimately show ?thesis
    by (simp add: shows_time_def)
qed

lemma written_path:
  assumes "out_dir self = Path d" and "can_open w (Path d) (out_suffix self)"
    and "fin (builder self) = (Inr doc, b)" and "can_write w (Path d) (out_suffix self) doc"
  shows "\<exists>w'. generate_report fin (w, self) = Ok (w', self\<lparr>builder := b\<rparr>)
           \<and> files w' (report_path d (os_sep w) (out_suffix self)) = Some doc"
  by (simp add: generate_report_path [where fin = fin, OF assms])

lemma written_stream:
  assumes "out_dir self = Stream h" and "fin (builder self) = (Inr doc, b)"
    and "can_write w (Stream h) (out_suffix self) doc"
  shows "\<exists>w'. generate_report fin (w, self) = Ok (w', self\<lparr>builder := b\<rparr>)
           \<and> streams w' h = streams w h @ doc"
  by (simp add: generate_report_stream [where fin = fin, OF assms])

lemma finish_raises:
  assumes "can_open w (out_dir self) (out_suffix self)" and "fin (builder self) = (Inl e, b)"
  shows "\<exists>w'. generate_report fin (w, self) = Raised e (w', self\<lparr>builder := b\<rparr>)"
proof (cases "out_dir self")
  case (Path d)
  with assms(1) have "can_open w (Path d) (out_suffix self)" by simp
  from generate_report_path_finish_raises [where fin = fin, OF Path this assms(2)] show ?thesis by simp
next
  case (Stream h)
  from generate_report_stream_finish_raises [where fin = fin, OF Stream assms(2)] show ?thesis by simp
qed

lemma write_refused:
  assumes "can_open w (out_dir self) (out_suffix self)" and "fin (builder self) = (Inr doc, b)"
    and "\<not> can_write w (out_dir self) (out_suffix self) doc"
  shows "\<exists>e w'. generate_report fin (w, self) = Raised e (w', self\<lparr>builder := b\<rparr>)"
proof (cases "out_dir self")
  case (Path d)
  with assms(1) have opn: "can_open w (Path d) (out_suffix self)" by simp
  from assms(3) Path obtain e where
    no: "refuses w (WriteFile (report_path d (os_sep w) (out_suffix self)) doc) = Some e"
    by (auto simp add: can_write_def)
  have "generate_report fin (w, self) =
          and_then
            (and_then
               (in_world (\<lambda>w. if \<not> path_exists d w then makedirs d w else Ok w) (w, self))
               (in_world (open_w (report_path d (os_sep w) (out_suffix self)))))
            (\<lambda>ws. in_world (write_file (report_path d (os_sep w) (out_suffix self)) doc)
                    (fst ws, self\<lparr>builder := b\<rparr>))"
    using Path assms(2)
    by (simp add: generate_report_def Let_def report_file and_then_def split: result.splits)
  then show ?thesis
    unfolding open_report [OF Path opn] and_then_Ok
    by (simp add: in_world_def write_file_def attempt_def no)
next
  case (Stream h)
  with assms(3) obtain e where "refuses w (WriteStream h doc) = Some e"
    by (auto simp add: can_write_def)
  with Stream assms(2) show ?thesis
    by (simp add: generate_report_def Let_def in_world_def write_stream_def attempt_def)
qed

lemma run_tests_leaves_suite:
  assumes "between_tests self" and "list_all (\<lambda>x. list_all reportable (reported x)) xs"
    and "xs \<noteq> []"
  shows "\<exists>self' r s. run_tests fmt xs self = Ok self' \<and> stack (builder self') = [r, s]
           \<and> tag r = ''testsuites'' \<and> tag s = ''testsuite''"
proof -
  from run_tests_between [OF assms(1,2), of fmt] assms(3)
  obtain self' where run: "run_tests fmt xs self = Ok self'" and inv: "between_tests self'"
    and opn: "open_suite self' = Some (strclass (tested (last xs)))"
    by auto
  from inv consider
      (root) r where "stack (builder self') = [r]"
    | (suite) r s where "stack (builder self') = [r, s]" "tag r = ''testsuites''"
        "tag s = ''testsuite''"
    by (auto simp add: between_tests_def split: list.splits)
  then show ?thesis
  proof cases
    case root
    with opn show ?thesis by (simp add: open_suite_def)
  next
    case suite
    with run show ?thesis by simp
  qed
qed

text \<open>
  C1, as amended. After a run of at least one test the suite context of the last test is
  still open when \<open>stopTestRun\<close> is called, and \<open>stopTestRun\<close> does not close it. If the
  report cannot be opened, \<open>stopTestRun\<close> raises and leaves the builder as it was.
  Otherwise the one thing it does with the builder is to call \<open>finish\<close> on it as the
  last test stop left it: if \<open>finish\<close> returns a document, the document is written to
  the output target (or the refusal of the write is raised); if \<open>finish\<close> raises,
  \<open>stopTestRun\<close> raises the same error. With the specification's \<open>finish\<close> the builder
  receives the call \<open>Finish\<close> and no other.
\<close>

theorem stopTestRun_only_finishes:
  assumes "between_tests self" and "list_all (\<lambda>x. list_all reportable (reported x)) xs"
    and "xs \<noteq> []"
  shows "\<exists>self'. run_tests fmt xs self = Ok self'
           \<and> context_tag (builder self') = ''testsuite''
           \<and> (can_open w (out_dir self) (out_suffix self) \<longrightarrow>
                (\<forall>doc b. fin (builder self') = (Inr doc, b) \<longrightarrow>
                   (if can_write w (out_dir self) (out_suffix self) doc
                    then \<exists>w'. stopTestRun fin (w, self') = Ok (w', self'\<lparr>builder := b\<rparr>)
                           \<and> (case out_dir self of
                                 Path d \<Rightarrow>
                                   files w' (report_path d (os_sep w) (out_suffix self)) = Some doc
                               | Stream h \<Rightarrow> streams w' h = streams w h @ doc)
                    else \<exists>e w'. stopTestRun fin (w, self') = Raised e (w', self'\<lparr>builder := b\<rparr>)))
                \<and> (\<forall>e b. fin (builder self') = (Inl e, b) \<longrightarrow>
                      (\<exists>w'. stopTestRun fin (w, self') = Raised e (w', self'\<lparr>builder := b\<rparr>))))
           \<and> (\<not> can_open w (out_dir self) (out_suffix self) \<longrightarrow>
                (\<exists>e w'. stopTestRun fin (w, self') = Raised e (w', self')))
           \<and> journal (snd (finish render (builder self'))) = journal (builder self') @ [Finish]"
proof -
  from run_tests_leaves_suite [OF assms(1,2,3), of fmt]
  obtain self' r s where run: "run_tests fmt xs self = Ok self'"
    and "stack (builder self') = [r, s]" and "tag s = ''testsuite''"
    by blast
  then have tag: "context_tag (builder self') = ''testsuite''"
    by (simp add: context_tag_def)
  note same = run_tests_target [OF run]
  have written: "\<exists>w'. stopTestRun fin (w, self') = Ok (w', self'\<lparr>builder := b\<rparr>)
       \<and> (case out_dir self of
             Path d \<Rightarrow> files w' (report_path d (os_sep w) (out_suffix self)) = Some doc
           | Stream h \<Rightarrow> streams w' h = streams w h @ doc)"
    if opn: "can_open w (out_dir self) (out_suffix self)"
      and fin: "fin (builder self') = (Inr doc, b)"
      and wr: "can_write w (out_dir self) (out_suffix self) doc" for doc b
  proof (cases "out_dir self")
    case (Path d)
    with same have od: "out_dir self' = Path d" by simp
    from opn wr have "can_open w (Path d) (out_suffix self')" "can_write w (Path d) (out_suffix self') doc"
      by (simp_all add: same Path)
    from written_path [where fin = fin, OF od this(1) fin this(2)] show ?thesis
      by (simp add: stopTestRun_def Path same)
  next
    case (Stream h)
    with same have od: "out_dir self' = Stream h" by simp
    from wr have "can_write w (Stream h) (out_suffix self') doc"
      by (simp add: same Stream)
    from written_stream [where fin = fin, OF od fin this] show ?thesis
      by (simp add: stopTestRun_def Stream)
  qed
  have unwritten: "\<exists>e w'. stopTestRun fin (w, self') = Raised e (w', self'\<lparr>builder := b\<rparr>)"
    if "can_open w (out_dir self) (out_suffix self)"
      and "fin (builder self') = (Inr doc, b)"
      and "\<not> can_write w (out_dir self) (out_suffix self) doc" for doc b
    using write_refused [where fin = fin and self = self' and w = w and doc = doc and b = b] that
    by (simp add: stopTestRun_def same)
  have raised: "\<exists>w'. stopTestRun fin (w, self') = Raised e (w', self'\<lparr>builder := b\<rparr>)"
    if "can_open w (out_dir self) (out_suffix self)" and "fin (builder self') = (Inl e, b)" for e b
    using finish_raises [where fin = fin and self = self' and w = w and e = e and b = b] that
    by (simp add: stopTestRun_def same)
  have unopened: "\<exists>e w'. stopTestRun fin (w, self') = Raised e (w', self')"
    if "\<not> can_open w (out_dir self) (out_suffix self)"
    using generate_report_unopened [of w self' fin] that
    by (simp add: stopTestRun_def same)
  show ?thesis
  proof (intro exI [of _ self'] conjI impI allI)
    show "run_tests fmt xs self = Ok self'" by (rule run)
    show "context_tag (builder self') = ''testsuite''" by (rule tag)
    show "journal (snd (finish render (builder self'))) = journal (builder self') @ [Finish]"
      by (rule finish_journal)
  next
    fix doc b
    assume "can_open w (out_dir self) (out_suffix self)" and "fin (builder self') = (Inr doc, b)"
    then show "if can_write w (out_dir self) (out_suffix self) doc
        then \<exists>w'. stopTestRun fin (w, self') = Ok (w', self'\<lparr>builder := b\<rparr>)
               \<and> (case out_dir self of
                     Path d \<Rightarrow> files w' (report_path d (os_sep w) (out_suffix self)) = Some doc
                   | Stream h \<Rightarrow> streams w' h = streams w h @ doc)
        else \<exists>e w'. stopTestRun fin (w, self') = Raised e (w', self'\<lparr>builder := b\<rparr>)"
      using written [of doc b] unwritten [of doc b] by simp
  next
    fix e b
    assume "can_open w (out_dir self) (out_suffix self)" and "fin (builder self') = (Inl e, b)"
    then show "\<exists>w'. stopTestRun fin (w, self') = Raised e (w', self'\<lparr>builder := b\<rparr>)"
      by (rule raised)
  next
    assume "\<not> can_open w (out_dir self) (out_suffix self)"
    then show "\<exists>e w'. stopTestRun fin (w, self') = Raised e (w', self')"
      by (rule unopened)
  qed
qed

lemma journal_example_stopped:
  "journal (builder example_stopped) =
     [BeginContext ''testsuites'' ''TestSuites'', BeginContext ''testsuite'' ''pkg.Foo'',
      BeginContext ''testcase'' ''test_a'', AppendCdataSection ''system-out'' ''hello'',
      IncrementCounter ''tests'', EndContext]"
  by (simp add: example_defs listener_defs builder_defs)

lemma context_tag_example_stopped: "context_tag (builder example_stopped) = ''testsuite''"
  by (simp add: example_defs listener_defs builder_defs)

lemma target_example_stopped:
  "out_dir example_stopped = Path ''reports''" "out_suffix example_stopped = ''20130102T030405''"
  by (simp_all add: example_defs listener_defs builder_defs)

lemma can_open_example:
  "can_open example_world (Path ''reports'') ''20130102T030405''"
  "can_open example_world (Stream h) ''20130102T030405''"
  by (simp_all add: can_open_def example_world_def)

lemma can_write_example:
  "can_write example_world (Path ''reports'') ''20130102T030405'' doc"
  "can_write example_world (Stream h) ''20130102T030405'' doc"
  by (simp_all add: can_write_def example_world_def)

lemma closing_finish_open_suite:
  assumes "stack b = [r, s]"
  shows "fst (closing_finish b) = Inr (tag r)"
  using assms
  by (simp add: closing_finish_def Let_def received_def close_top_def add_child_def closed_def
      example_render_def numeral_2_eq_2)

text \<open>
  C1, as stated, fails on the run of the single test \<open>test_a\<close>: after its stop the
  journal holds one \<open>end_context\<close>, that of the testcase; the open context is the
  testsuite; and \<open>stopTestRun\<close> adds the call of \<open>finish\<close> and nothing else.
\<close>

theorem suite_open_at_finish:
  "journal (builder example_stopped) =
     [BeginContext ''testsuites'' ''TestSuites'', BeginContext ''testsuite'' ''pkg.Foo'',
      BeginContext ''testcase'' ''test_a'', AppendCdataSection ''system-out'' ''hello'',
      IncrementCounter ''tests'', EndContext]
   \<and> context_tag (builder example_stopped) = ''testsuite''
   \<and> journal (builder (snd (state_of
        (stopTestRun (finish example_render) (example_world, example_stopped))))) =
     journal (builder example_stopped) @ [Finish]"
proof -
  obtain r b where fin: "finish example_render (builder example_stopped) = (r, b)"
    by (cases "finish example_render (builder example_stopped)")
  with finish_journal [of example_render "builder example_stopped"]
  have jn: "journal b = journal (builder example_stopped) @ [Finish]"
    by simp
  have opn: "can_open example_world (out_dir example_stopped) (out_suffix example_stopped)"
    by (simp add: target_example_stopped can_open_example)
  have "journal (builder (snd (state_of
          (stopTestRun (finish example_render) (example_world, example_stopped))))) = journal b"
  proof (cases r)
    case (Inl e)
    with fin finish_raises [where fin = "finish example_render", OF opn] show ?thesis
      by (auto simp add: stopTestRun_def state_of_def)
  next
    case (Inr doc)
    with fin
      written_path [where fin = "finish example_render" and w = example_world,
        OF target_example_stopped(1)]
    show ?thesis
      by (auto simp add: stopTestRun_def state_of_def target_example_stopped can_open_example
          can_write_example)
  qed
  with jn show ?thesis
    by (simp add: journal_example_stopped context_tag_example_stopped)
qed

theorem stopTestRun_only_finishes_witness:
  "context_tag (builder (state_of (run_tests no_traceback example_run example_started)))
     = ''testsuite''
   \<and> (\<exists>w'. stopTestRun closing_finish
             (example_world, state_of (run_tests no_traceback example_run example_started)) =
           Ok (w', (state_of (run_tests no_traceback example_run example_started))
                     \<lparr>builder := snd (closing_finish
                        (builder (state_of (run_tests no_traceback example_run example_started))))\<rparr>)
         \<and> files w' ''reports/TESTS-TestSuites-20130102T030405.xml'' = Some ''testsuites'')"
proof -
  have tgt: "out_dir example_started = Path ''reports''"
    "out_suffix example_started = ''20130102T030405''"
    by (simp_all add: example_defs listener_defs)
  have ne: "example_run \<noteq> []" by (simp add: example_run_def)
  have opn: "can_open example_world (out_dir example_started) (out_suffix example_started)"
    by (simp add: tgt can_open_example)
  from run_tests_leaves_suite [OF between_tests_example_started reportable_example_run ne,
      of no_traceback]
  obtain s1 r s where "run_tests no_traceback example_run example_started = Ok s1"
    and "stack (builder s1) = [r, s]" and "tag r = ''testsuites''"
    by blast
  then have fin: "closing_finish (builder (state_of (run_tests no_traceback example_run example_started)))
      = (Inr ''testsuites'',
         snd (closing_finish (builder (state_of (run_tests no_traceback example_run example_started)))))"
    using closing_finish_open_suite [of "builder s1" r s]
    by (simp add: state_of_def prod_eq_iff)
  from stopTestRun_only_finishes [OF between_tests_example_started reportable_example_run ne,
      of no_traceback example_world closing_finish example_render] opn
  obtain self' where run: "run_tests no_traceback example_run example_started = Ok self'"
    and tag: "context_tag (builder self') = ''testsuite''"
    and written: "\<forall>doc b. closing_finish (builder self') = (Inr doc, b)
        \<and> can_write example_world (out_dir example_started) (out_suffix example_started) doc \<longrightarrow>
        (\<exists>w'. stopTestRun closing_finish (example_world, self') = Ok (w', self'\<lparr>builder := b\<rparr>)
           \<and> (case out_dir example_started of
                 Path d \<Rightarrow>
                   files w' (report_path d (os_sep example_world) (out_suffix example_started))
                     = Some doc
               | Stream h \<Rightarrow> streams w' h = streams example_world h @ doc))"
    by (auto split: if_splits)
  from run have st: "state_of (run_tests no_traceback example_run example_started) = self'"
    by (simp add: state_of_def)
  from fin have "closing_finish (builder self') =
      (Inr ''testsuites'', snd (closing_finish (builder self')))"
    by (simp add: st)
  with written can_write_example(1) [of "''testsuites''"]
  have "\<exists>w'. stopTestRun closing_finish (example_world, self') =
            Ok (w', self'\<lparr>builder := snd (closing_finish (builder self'))\<rparr>)
          \<and> files w' (report_path ''reports'' (os_sep example_world) ''20130102T030405'')
              = Some ''testsuites''"
    by (simp add: tgt)
  with tag show ?thesis
    by (simp add: st report_path_def example_world_def)
qed

text \<open>
  C8. A run in which no test starts, on a listener as the constructor leaves it, with a
  report that the system lets be opened and written. \<open>stopTestRun\<close> succeeds; the builder
  has received the opening of the root \<open>testsuites\<close> context, then \<open>finish\<close>, and no
  other call; no context is left open; the finished document is the root with every
  counter (\<open>tests\<close> among them) at 0 and no children; and its rendering is what is
  written to the report file or stream.
\<close>

theorem empty_run_report:
  assumes "init stream descriptions verbosity dir suffix now = Inr self"
    and "can_open w dir (out_suffix self)"
    and "can_write w dir (out_suffix self)
           (render (Element ''testsuites'' ''TestSuites'' (\<lambda>_. 0) []))"
  shows "\<exists>w' self'. stopTestRun (finish render) (w, startTestRun self) = Ok (w', self')
           \<and> journal (builder self') = [BeginContext ''testsuites'' ''TestSuites'', Finish]
           \<and> stack (builder self') = []
           \<and> document (builder self') = Some (Element ''testsuites'' ''TestSuites'' (\<lambda>_. 0) [])
           \<and> (case dir of
                 Path d \<Rightarrow>
                   files w' (report_path d (os_sep w) (out_suffix self)) =
                     Some (render (Element ''testsuites'' ''TestSuites'' (\<lambda>_. 0) []))
               | Stream h \<Rightarrow>
                   streams w' h =
                     streams w h @ render (Element ''testsuites'' ''TestSuites'' (\<lambda>_. 0) []))"
proof -
  note fields = init_fields [OF assms(1)]
  let ?root = "\<lparr>tag = ''testsuites'', name = ''TestSuites'', counters = (\<lambda>_. 0), children = []\<rparr>"
  let ?doc = "render (Element ''testsuites'' ''TestSuites'' (\<lambda>_. 0) [])"
  have st: "stack (builder (startTestRun self)) = [?root]"
    and jn: "journal (builder (startTestRun self)) = [BeginContext ''testsuites'' ''TestSuites'']"
    and od: "out_dir (startTestRun self) = dir"
    and sf: "out_suffix (startTestRun self) = out_suffix self"
    using fields
    by (simp_all add: startTestRun_def on_builder_def begin_context_def received_def
        XMLContextBuilder_def)
  have fin: "finish render (builder (startTestRun self)) =
      (Inr ?doc,
       (builder (startTestRun self))
         \<lparr>stack := [], document := Some (closed ?root),
          journal := journal (builder (startTestRun self)) @ [Finish]\<rparr>)"
    using finish_root [OF st, of render] by (simp add: closed_def)
  show ?thesis
  proof (cases dir)
    case (Path d)
    with od have p: "out_dir (startTestRun self) = Path d" by simp
    from assms(2,3) have "can_open w (Path d) (out_suffix (startTestRun self))"
      "can_write w (Path d) (out_suffix (startTestRun self)) ?doc"
      by (simp_all add: Path sf)
    from generate_report_path [where fin = "finish render", OF p this(1) fin this(2)]
    show ?thesis
      by (simp add: stopTestRun_def Path jn sf closed_def)
  next
    case (Stream h)
    with od have p: "out_dir (startTestRun self) = Stream h" by simp
    from assms(3) have "can_write w (Stream h) (out_suffix (startTestRun self)) ?doc"
      by (simp add: Stream sf)
    from generate_report_stream [where fin = "finish render", OF p fin this]
    show ?thesis
      by (simp add: stopTestRun_def Stream jn closed_def)
  qed
qed

theorem empty_run_report_witness:
  "stopTestRun (finish example_render) (example_world, example_started) =
     Ok (example_world
           \<lparr>existing := {''reports/TESTS-TestSuites-20130102T030405.xml'', ''reports''},
            files := [''reports/TESTS-TestSuites-20130102T030405.xml'' \<mapsto> ''testsuites''],
            io_calls := [MakeDirs ''reports'',
              OpenForWriting ''reports/TESTS-TestSuites-20130102T030405.xml'',
              WriteFile ''reports/TESTS-TestSuites-20130102T030405.xml'' ''testsuites'']\<rparr>,
         example_started
           \<lparr>builder :=
              \<lparr>stack = [],
               document = Some (Element ''testsuites'' ''TestSuites'' (\<lambda>_. 0) []),
               journal = [BeginContext ''testsuites'' ''TestSuites'', Finish]\<rparr>\<rparr>)"
proof -
  have sfx: "out_suffix example_listener = ''20130102T030405''"
    by (simp add: example_listener_def)
  have opn: "can_open example_world (Path ''reports'') (out_suffix example_listener)"
    and wr: "can_write example_world (Path ''reports'') (out_suffix example_listener)
               (example_render (Element ''testsuites'' ''TestSuites'' (\<lambda>_. 0) []))"
    by (simp_all add: sfx can_open_example can_write_example)
  from empty_run_report [where render = example_render, OF init_example opn wr]
  obtain w' self' where
    "stopTestRun (finish example_render) (example_world, example_started) = Ok (w', self')"
    by (auto simp add: example_started_def)
  then show ?thesis
    by (simp add: stopTestRun_def generate_report_def Let_def report_file finish_def
        in_world_def and_then_def path_exists_def makedirs_def open_w_def write_file_def
        attempt_def report_path_def
        example_render_def example_world_def example_defs listener_defs builder_defs
        split: prod.splits)
qed

text \<open>
  A report that cannot be opened: for the empty path \<open>os.makedirs\<close> raises before
  \<open>finish\<close> is called, whatever the run was, and the listener is left as it was.
\<close>

lemma empty_path_raises:
  "out_dir self = Path [] \<Longrightarrow>
   stopTestRun fin (w, self) = Raised FileNotFoundError (w, self)"
  by (simp add: stopTestRun_def generate_report_empty_path)

text \<open>
  C7. Let the system refuse neither the making of the directory nor the opening of the
  file. If the output target is a directory path \<open>d\<close>, \<open>stopTestRun\<close> makes the directory
  if it does not exist, then opens \<open>d/TESTS-TestSuites-<suffix>.xml\<close> for writing, and
  only then calls the builder's \<open>finish\<close>: the document that \<open>finish\<close> returns is
  written to that file, and if \<open>finish\<close> raises, \<open>stopTestRun\<close> raises the same error
  and the file is left open and empty. If the target is a stream, the document is
  written to it, and no directory is made and no file opened. The suffix is fixed by the
  constructor: a template with the placeholder \<open>{0}\<close> gets the timestamp in its place,
  an omitted template gives the timestamp itself; the timestamp has the format
  \<open>YYYYMMDDTHHMMSS\<close> and its fields, read back, are the year, month, day, hour, minute
  and second of the clock.
\<close>

theorem report_output:
  assumes "can_open w (out_dir self) (out_suffix self)"
    and "brace_free pre" and "brace_free post" and "calendar_time now"
  shows "(\<forall>d. out_dir self = Path d \<longrightarrow>
            (\<forall>doc b. fin (builder self) = (Inr doc, b)
                 \<and> can_write w (Path d) (out_suffix self) doc \<longrightarrow>
               stopTestRun fin (w, self) =
                 Ok (w\<lparr>existing := insert (report_path d (os_sep w) (out_suffix self))
                                     (insert d (existing w)),
                       files := (files w)(report_path d (os_sep w) (out_suffix self) \<mapsto> doc),
                       io_calls := io_calls w
                         @ (if d \<in> existing w then [] else [MakeDirs d])
                         @ [OpenForWriting (report_path d (os_sep w) (out_suffix self)),
                            WriteFile (report_path d (os_sep w) (out_suffix self)) doc]\<rparr>,
                     self\<lparr>builder := b\<rparr>))
            \<and> (\<forall>e b. fin (builder self) = (Inl e, b) \<longrightarrow>
               stopTestRun fin (w, self) =
                 Raised e
                   (w\<lparr>existing := insert (report_path d (os_sep w) (out_suffix self))
                                     (insert d (existing w)),
                       files := (files w)(report_path d (os_sep w) (out_suffix self) \<mapsto> []),
                       io_calls := io_calls w
                         @ (if d \<in> existing w then [] else [MakeDirs d])
                         @ [OpenForWriting (report_path d (os_sep w) (out_suffix self))]\<rparr>,
                    self\<lparr>builder := b\<rparr>)))
       \<and> (\<forall>h. out_dir self = Stream h \<longrightarrow>
            (\<forall>doc b. fin (builder self) = (Inr doc, b)
                 \<and> can_write w (Stream h) (out_suffix self) doc \<longrightarrow>
               stopTestRun fin (w, self) =
                 Ok (w\<lparr>streams := (streams w)(h := streams w h @ doc),
                       io_calls := io_calls w @ [WriteStream h doc]\<rparr>,
                     self\<lparr>builder := b\<rparr>))
            \<and> (\<forall>e b. fin (builder self) = (Inl e, b) \<longrightarrow>
               stopTestRun fin (w, self) = Raised e (w, self\<lparr>builder := b\<rparr>)))
       \<and> (\<exists>self0. init stream descriptions verbosity dir (Some (pre @ ''{0}'' @ post)) now = Inr self0
              \<and> out_dir self0 = dir \<and> out_suffix self0 = pre @ timestamp now @ post)
       \<and> (\<exists>self0. init stream descriptions verbosity dir None now = Inr self0
              \<and> out_dir self0 = dir \<and> out_suffix self0 = timestamp now)
       \<and> shows_time (timestamp now) now"
proof (intro conjI allI impI)
  fix d doc b
  assume p: "out_dir self = Path d"
    and f: "fin (builder self) = (Inr doc, b) \<and> can_write w (Path d) (out_suffix self) doc"
  from assms(1) p have "can_open w (Path d) (out_suffix self)" by simp
  from generate_report_path [where fin = fin, OF p this] f
  show "stopTestRun fin (w, self) =
          Ok (w\<lparr>existing := insert (report_path d (os_sep w) (out_suffix self))
                              (insert d (existing w)),
                files := (files w)(report_path d (os_sep w) (out_suffix self) \<mapsto> doc),
                io_calls := io_calls w
                  @ (if d \<in> existing w then [] else [MakeDirs d])
                  @ [OpenForWriting (report_path d (os_sep w) (out_suffix self)),
                     WriteFile (report_path d (os_sep w) (out_suffix self)) doc]\<rparr>,
              self\<lparr>builder := b\<rparr>)"
    by (simp add: stopTestRun_def)
next
  fix d e b
  assume p: "out_dir self = Path d" and f: "fin (builder self) = (Inl e, b)"
  from assms(1) p have "can_open w (Path d) (out_suffix self)" by simp
  from generate_report_path_finish_raises [where fin = fin, OF p this f]
  show "stopTestRun fin (w, self) =
          Raised e
            (w\<lparr>existing := insert (report_path d (os_sep w) (out_suffix self))
                              (insert d (existing w)),
                files := (files w)(report_path d (os_sep w) (out_suffix self) \<mapsto> []),
                io_calls := io_calls w
                  @ (if d \<in> existing w then [] else [MakeDirs d])
                  @ [OpenForWriting (report_path d (os_sep w) (out_suffix self))]\<rparr>,
             self\<lparr>builder := b\<rparr>)"
    by (simp add: stopTestRun_def)
next
  fix h doc b
  assume p: "out_dir self = Stream h"
    and f: "fin (builder self) = (Inr doc, b) \<and> can_write w (Stream h) (out_suffix self) doc"
  from generate_report_stream [where fin = fin, OF p] f
  show "stopTestRun fin (w, self) =
          Ok (w\<lparr>streams := (streams w)(h := streams w h @ doc),
                io_calls := io_calls w @ [WriteStream h doc]\<rparr>,
              self\<lparr>builder := b\<rparr>)"
    by (simp add: stopTestRun_def)
next
  fix h e b
  assume p: "out_dir self = Stream h" and f: "fin (builder self) = (Inl e, b)"
  from generate_report_stream_finish_raises [where fin = fin, OF p f]
  show "stopTestRun fin (w, self) = Raised e (w, self\<lparr>builder := b\<rparr>)"
    by (simp add: stopTestRun_def)
next
  show "\<exists>self0. init stream descriptions verbosity dir (Some (pre @ ''{0}'' @ post)) now = Inr self0
          \<and> out_dir self0 = dir \<and> out_suffix self0 = pre @ timestamp now @ post"
    using format_placeholder [OF assms(2,3), of "timestamp now"]
    by (simp add: init_def truthy_def Let_def)
next
  show "\<exists>self0. init stream descriptions verbosity dir None now = Inr self0
          \<and> out_dir self0 = dir \<and> out_suffix self0 = timestamp now"
    by (simp add: init_def truthy_def Let_def)
next
  show "shows_time (timestamp now) now"
    by (rule timestamp_shows_time [OF assms(4)])
qed

text \<open>
  With the builder as the specification describes it, \<open>finish\<close> on the stack that a run
  of at least one test leaves (the root and a suite) is a usage error.
\<close>

lemma finish_with_open_suite:
  "stack b = [root, suite] \<Longrightarrow> fst (finish render b) = Inl MalformedStack"
  by (simp add: finish_def Let_def received_def)

lemma stack_example_stopped:
  "stack (builder example_stopped) =
      [\<lparr>tag = ''testsuites'', name = ''TestSuites'', counters = (\<lambda>_. 0)(''tests'' := 1),
        children = []\<rparr>,
       \<lparr>tag = ''testsuite'', name = ''pkg.Foo'', counters = (\<lambda>_. 0)(''tests'' := 1),
        children = [Element ''testcase'' ''test_a'' ((\<lambda>_. 0)(''tests'' := 1))
                      [Leaf ''system-out'' (Some ''hello'') []]]\<rparr>]"
  by (simp add: example_defs listener_defs builder_defs)

lemma closing_finish_example_stopped:
  "fst (closing_finish (builder example_stopped)) = Inr ''testsuites''"
  using closing_finish_open_suite [OF stack_example_stopped] by simp

theorem report_output_witness:
  "files (fst (state_of (stopTestRun closing_finish (example_world, example_stopped))))
     ''reports/TESTS-TestSuites-20130102T030405.xml'' = Some ''testsuites''
   \<and> io_calls (fst (state_of (stopTestRun closing_finish (example_world, example_stopped)))) =
       [MakeDirs ''reports'',
        OpenForWriting ''reports/TESTS-TestSuites-20130102T030405.xml'',
        WriteFile ''reports/TESTS-TestSuites-20130102T030405.xml'' ''testsuites'']
   \<and> io_calls (fst (state_of
        (stopTestRun (finish example_render) (example_world, example_stopped)))) =
       [MakeDirs ''reports'',
        OpenForWriting ''reports/TESTS-TestSuites-20130102T030405.xml'']
   \<and> streams (fst (state_of (stopTestRun closing_finish
        (example_world, example_stopped\<lparr>out_dir := Stream 1\<rparr>)))) 1 = ''testsuites''
   \<and> io_calls (fst (state_of (stopTestRun closing_finish
        (example_world, example_stopped\<lparr>out_dir := Stream 1\<rparr>)))) =
       [WriteStream 1 ''testsuites'']
   \<and> io_calls (fst (state_of (stopTestRun (finish example_render)
        (example_world, example_stopped\<lparr>out_dir := Stream 1\<rparr>)))) = []
   \<and> map_sum id out_suffix (init () () () (Path ''reports'') (Some ''nightly-{0}-a'') example_time) =
       Inr ''nightly-20130102T030405-a''
   \<and> map_sum id out_suffix (init () () () (Path ''reports'') None example_time) =
       Inr ''20130102T030405''
   \<and> shows_time ''20130102T030405'' example_time"
proof -
  obtain b where fin: "closing_finish (builder example_stopped) = (Inr ''testsuites'', b)"
    using closing_finish_example_stopped
    by (cases "closing_finish (builder example_stopped)") simp
  obtain b' where fin': "finish example_render (builder example_stopped) = (Inl MalformedStack, b')"
    using finish_with_open_suite [OF stack_example_stopped, of example_render]
    by (cases "finish example_render (builder example_stopped)") simp
  have bf: "brace_free ''nightly-''" "brace_free ''-a''"
    by (simp_all add: brace_free_def)
  have cal: "calendar_time example_time"
    by (simp add: calendar_time_def example_time_def)
  have ts: "timestamp example_time = ''20130102T030405''"
    by (simp add: example_time_def timestamp_eq two_digits_def digit_def decimal.simps)
  have o1: "can_open example_world (out_dir example_stopped) (out_suffix example_stopped)"
    by (simp add: target_example_stopped can_open_example)
  have o2: "can_open example_world (out_dir (example_stopped\<lparr>out_dir := Stream 1\<rparr>))
              (out_suffix (example_stopped\<lparr>out_dir := Stream 1\<rparr>))"
    by (simp add: target_example_stopped can_open_example)
  note path = report_output [where fin = closing_finish, OF o1 bf cal,
      of "()" "()" "()" "Path ''reports''"]
  note path' = report_output [where fin = "finish example_render", OF o1 bf cal,
      of "()" "()" "()" "Path ''reports''"]
  note stream = report_output [where fin = closing_finish, OF o2 bf cal,
      of "()" "()" "()" "Path ''reports''"]
  note stream' = report_output [where fin = "finish example_render", OF o2 bf cal,
      of "()" "()" "()" "Path ''reports''"]
  from path path' stream stream' fin fin' show ?thesis
    by (auto simp add: target_example_stopped ts state_of_def report_path_def example_world_def
        can_write_def)
qed

text \<open>
  C4 holds for exceptions with a message (see \<open>addError_records\<close> and
  \<open>addFailure_records\<close> below) but not for every exception: in the run of \<open>test_a\<close>, an
  error \<open>ValueError()\<close>, whose string representation is empty, raises \<open>IndexError\<close>
  after the \<open>errors\<close> counters were raised; no \<open>error\<close> leaf is appended.
\<close>

theorem error_without_message_unrecorded:
  "addError no_traceback test_a
     \<lparr>exctype_name = ''ValueError'', value_str = [], tb_frames = []\<rparr> example_within =
   Raised IndexError
     (example_within
        \<lparr>builder :=
           \<lparr>stack =
              [\<lparr>tag = ''testsuites'', name = ''TestSuites'',
                counters = (\<lambda>_. 0)(''errors'' := 1), children = []\<rparr>,
               \<lparr>tag = ''testsuite'', name = ''pkg.Foo'',
                counters = (\<lambda>_. 0)(''errors'' := 1), children = []\<rparr>,
               \<lparr>tag = ''testcase'', name = ''test_a'',
                counters = (\<lambda>_. 0)(''errors'' := 1), children = []\<rparr>],
            document = None,
            journal = [BeginContext ''testsuites'' ''TestSuites'', BeginContext ''testsuite'' ''pkg.Foo'',
                       BeginContext ''testcase'' ''test_a'', IncrementCounter ''errors'']\<rparr>\<rparr>)"
  by (simp add: addError_def append_error_data_def splitlines_def Let_def
      example_defs listener_defs builder_defs)

text \<open>
  What C4 says holds whenever the exception has a non-empty string representation and
  a context is open: exactly the \<open>errors\<close> (or \<open>failures\<close>) counters are raised by one,
  and the leaf has the first line of the message as \<open>message\<close>, the name of the exception
  class as \<open>type\<close> and the formatted traceback as CDATA body.
\<close>

lemma append_error_data_payload:
  assumes "stack (builder self) = outer @ [tc]" and "value_str e \<noteq> []"
  shows "append_error_data fmt test error_type (Some e) self =
           Ok (self\<lparr>builder := (builder self)
                 \<lparr>stack := outer
                            @ [add_child (Leaf error_type (cdata_body (Some (fmt self e test)))
                                 [(''message'', hd (splitlines (value_str e))),
                                  (''type'', exctype_name e)]) tc],
                  journal := journal (builder self)
                            @ [Append error_type (Some (fmt self e test))
                                 [(''message'', hd (splitlines (value_str e))),
                                  (''type'', exctype_name e)]]\<rparr>\<rparr>)"
proof -
  obtain l ls where "splitlines (value_str e) = l # ls"
    using splitlines_nonempty [OF assms(2)] by (cases "splitlines (value_str e)") auto
  then show ?thesis
    using assms(1) by (simp add: append_error_data_def with_builder_def append_leaf_top Let_def)
qed

lemma addError_records:
  assumes "stack (builder self) = outer @ [tc]" and "value_str e \<noteq> []"
  shows "\<exists>self'. addError fmt test e self = Ok self'
           \<and> journal (builder self') =
               journal (builder self)
               @ [IncrementCounter ''errors'',
                  Append ''error'' (Some (fmt (on_builder (increment_counter ''errors'') self) e test))
                    [(''message'', hd (splitlines (value_str e))), (''type'', exctype_name e)]]
           \<and> stack (builder self') =
               map (bump ''errors'') outer
               @ [add_child
                    (Leaf ''error''
                       (cdata_body (Some (fmt (on_builder (increment_counter ''errors'') self) e test)))
                       [(''message'', hd (splitlines (value_str e))), (''type'', exctype_name e)])
                    (bump ''errors'' tc)]"
proof -
  let ?self1 = "on_builder (increment_counter ''errors'') self"
  have "stack (builder ?self1) = map (bump ''errors'') outer @ [bump ''errors'' tc]"
    and "journal (builder ?self1) = journal (builder self) @ [IncrementCounter ''errors'']"
    using assms(1) by (simp_all add: on_builder_def increment_counter_top)
  with append_error_data_payload [OF this(1) assms(2), of fmt test "''error''"]
  show ?thesis
    by (simp add: addError_def)
qed

lemma addFailure_records:
  assumes "stack (builder self) = outer @ [tc]" and "value_str e \<noteq> []"
  shows "\<exists>self'. addFailure fmt test e self = Ok self'
           \<and> journal (builder self') =
               journal (builder self)
               @ [IncrementCounter ''failures'',
                  Append ''failure'' (Some (fmt (on_builder (increment_counter ''failures'') self) e test))
                    [(''message'', hd (splitlines (value_str e))), (''type'', exctype_name e)]]
           \<and> stack (builder self') =
               map (bump ''failures'') outer
               @ [add_child
                    (Leaf ''failure''
                       (cdata_body (Some (fmt (on_builder (increment_counter ''failures'') self) e test)))
                       [(''message'', hd (splitlines (value_str e))), (''type'', exctype_name e)])
                    (bump ''failures'' tc)]"
proof -
  let ?self1 = "on_builder (increment_counter ''failures'') self"
  have "stack (builder ?self1) = map (bump ''failures'') outer @ [bump ''failures'' tc]"
    and "journal (builder ?self1) = journal (builder self) @ [IncrementCounter ''failures'']"
    using assms(1) by (simp_all add: on_builder_def increment_counter_top)
  with append_error_data_payload [OF this(1) assms(2), of fmt test "''failure''"]
  show ?thesis
    by (simp add: addFailure_def add_generic_failure_def)
qed

end
